theory Spec2Isabelle
  imports Complex_Main "HOL-Library.Log_Nat" "HOL-Library.AList"
begin

section \<open>Python values used by task_manager.py\<close>

text \<open>
  Strings are lists of characters. A character of HOL is one of the 256 code points
  U+0000 .. U+00FF, so the model covers the strings of Python whose code points lie in
  that range. In that range the decimal digits are \<open>0\<close> .. \<open>9\<close> only and the white space
  of \<open>str.strip\<close> is the set recognised by \<open>is_space\<close> below.

  Exceptions are values: a function that may raise returns \<open>py_error + 'a\<close>.
  \<open>FileNotFoundError\<close> and \<open>PermissionError\<close> are the errors of \<open>open\<close>; \<open>OSError\<close>
  stands for any other operating-system error, such as the one a \<open>write\<close> or the
  closing of a file raises when the device is full. The three are the errors that
  \<open>except IOError\<close> catches (\<open>IOError\<close> is an alias of \<open>OSError\<close>, of which the other
  two are subclasses).
\<close>

datatype py_error =
  ValueError | ZeroDivisionError | FileNotFoundError | PermissionError | OSError

definition is_io_error :: "py_error \<Rightarrow> bool" where
  "is_io_error e = (e = FileNotFoundError \<or> e = PermissionError \<or> e = OSError)"

subsection \<open>Floats\<close>

text \<open>
  A Python float is an IEEE 754 binary64 number. The program only produces finite,
  non-negative floats (quotients in [0, 1], percentages in [0, 100]), so a float is
  modelled by the rational number it denotes, and every operation is the exact
  operation followed by rounding to the nearest binary64 value, ties to even
  (\<open>fl\<close>). Binary64 has 53 significant bits and its smallest normal exponent is -1022;
  below it the spacing stays 2^-1074.
\<close>

definition ilog2 :: "rat \<Rightarrow> int" where
  "ilog2 x = (let (p, q) = quotient_of x; d = bitlen p - bitlen q
              in if 2 powi d \<le> x then d else d - 1)"

definition round_half_even :: "rat \<Rightarrow> int" where
  "round_half_even y =
     (let f = \<lfloor>y\<rfloor>; r = y - of_int f
      in if r < 1 / 2 then f else if 1 / 2 < r then f + 1
         else if even f then f else f + 1)"

definition fl :: "rat \<Rightarrow> rat" where
  "fl x = (if x = 0 then 0 else
     let e = max (ilog2 \<bar>x\<bar>) (- 1022); q = 2 powi (e - 52)
     in of_int (round_half_even (x / q)) * q)"

text \<open>A number is an \<open>int\<close> or a \<open>float\<close>; the report prints them differently.\<close>

datatype pynum = PyInt int | PyFloat rat

text \<open>\<open>a / b\<close> on two ints: true division, correctly rounded; raises on a zero divisor.\<close>

definition py_truediv :: "int \<Rightarrow> int \<Rightarrow> py_error + rat" where
  "py_truediv a b =
     (if b = 0 then Inl ZeroDivisionError else Inr (fl (of_int a / of_int b)))"

text \<open>\<open>x * 100\<close> on a float \<open>x\<close>: the int is converted exactly, the product is rounded.\<close>

definition float_mul_int :: "rat \<Rightarrow> int \<Rightarrow> rat" where
  "float_mul_int x n = fl (x * of_int n)"

definition float_add :: "rat \<Rightarrow> rat \<Rightarrow> rat" where
  "float_add x y = fl (x + y)"

text \<open>
  \<open>round(v, 2)\<close>: an int is returned unchanged; a float is converted to the decimal
  with two fractional digits nearest to its exact value (ties to even) and that
  decimal is converted back to the nearest float.
\<close>

fun py_round2 :: "pynum \<Rightarrow> pynum" where
  "py_round2 (PyInt n) = PyInt n"
| "py_round2 (PyFloat x) = PyFloat (fl (of_int (round_half_even (x * 100)) / 100))"

text \<open>The value a number denotes, for comparisons such as \<open>a + b == 100\<close>.\<close>

fun num_val :: "pynum \<Rightarrow> rat" where
  "num_val (PyInt n) = of_int n"
| "num_val (PyFloat x) = x"

text \<open>
  \<open>(a / b * 100) if b else 0\<close>: the conditional expression evaluates the division only
  when \<open>b\<close> is non-zero; otherwise its value is the int 0.
\<close>

definition percent_of :: "int \<Rightarrow> int \<Rightarrow> py_error + pynum" where
  "percent_of a b =
     (if b \<noteq> 0
      then (case py_truediv a b of
              Inl e \<Rightarrow> Inl e
            | Inr q \<Rightarrow> Inr (PyFloat (float_mul_int q 100)))
      else Inr (PyInt 0))"

section \<open>Dates: datetime.strptime(due_date, "%Y-%m-%d") and datetime.now()\<close>

record datetime =
  year :: nat
  month :: nat
  day :: nat
  hour :: nat
  minute :: nat
  second :: nat
  microsecond :: nat

text \<open>Two naive datetimes compare as the tuples of their seven components.\<close>

fun lex_less :: "nat list \<Rightarrow> nat list \<Rightarrow> bool" where
  "lex_less [] [] = False"
| "lex_less [] (y # ys) = True"
| "lex_less (x # xs) [] = False"
| "lex_less (x # xs) (y # ys) = (x < y \<or> (x = y \<and> lex_less xs ys))"

definition dt_tuple :: "datetime \<Rightarrow> nat list" where
  "dt_tuple d = [year d, month d, day d, hour d, minute d, second d, microsecond d]"

definition dt_less :: "datetime \<Rightarrow> datetime \<Rightarrow> bool" where
  "dt_less a b = lex_less (dt_tuple a) (dt_tuple b)"

definition is_leap :: "nat \<Rightarrow> bool" where
  "is_leap y = (y mod 4 = 0 \<and> (y mod 100 \<noteq> 0 \<or> y mod 400 = 0))"

definition days_in_month :: "nat \<Rightarrow> nat \<Rightarrow> nat" where
  "days_in_month y m =
     (if m = 2 then (if is_leap y then 29 else 28)
      else if m = 4 \<or> m = 6 \<or> m = 9 \<or> m = 11 then 30 else 31)"

text \<open>
  The date constructor: the year must lie in 1 .. 9999, the month in 1 .. 12 and the
  day in the month; anything else raises \<open>ValueError\<close>. The time of day is midnight.
\<close>

definition mk_date :: "nat \<Rightarrow> nat \<Rightarrow> nat \<Rightarrow> py_error + datetime" where
  "mk_date y m d =
     (if 1 \<le> y \<and> y \<le> 9999 \<and> 1 \<le> m \<and> m \<le> 12 \<and> 1 \<le> d \<and> d \<le> days_in_month y m
      then Inr \<lparr>year = y, month = m, day = d, hour = 0, minute = 0, second = 0,
                microsecond = 0\<rparr>
      else Inl ValueError)"

text \<open>
  \<open>strptime\<close> turns the format into the regular expression
  \<^verbatim>\<open>(?P<Y>\d\d\d\d)-(?P<m>1[0-2]|0[1-9]|[1-9])-(?P<d>3[0-1]|[1-2]\d|0[1-9]|[1-9]| [1-9])\<close>
  and matches it at the start of the string. Each group is modelled by the list of
  its possible matches (matched text and remaining input) in the order in which the
  backtracking matcher tries them; the match is the first combination that succeeds.
\<close>

definition char_in :: "char \<Rightarrow> char \<Rightarrow> char \<Rightarrow> bool" where
  "char_in lo hi c = ((of_char lo :: nat) \<le> of_char c \<and> (of_char c :: nat) \<le> of_char hi)"

definition is_digit :: "char \<Rightarrow> bool" where
  "is_digit c = char_in (CHR ''0'') (CHR ''9'') c"

definition digit_val :: "char \<Rightarrow> nat" where
  "digit_val c = of_char c - 48"

definition re_class1 :: "(char \<Rightarrow> bool) \<Rightarrow> string \<Rightarrow> (string \<times> string) list" where
  "re_class1 P s = (case s of a # r \<Rightarrow> if P a then [([a], r)] else [] | [] \<Rightarrow> [])"

definition re_class2 ::
  "(char \<Rightarrow> bool) \<Rightarrow> (char \<Rightarrow> bool) \<Rightarrow> string \<Rightarrow> (string \<times> string) list" where
  "re_class2 P Q s =
     (case s of a # b # r \<Rightarrow> if P a \<and> Q b then [([a, b], r)] else [] | _ \<Rightarrow> [])"

definition re_lit :: "char \<Rightarrow> string \<Rightarrow> string list" where
  "re_lit c s = (case s of a # r \<Rightarrow> if a = c then [r] else [] | [] \<Rightarrow> [])"

definition re_Y :: "string \<Rightarrow> (string \<times> string) list" where
  "re_Y s =
     (case s of
        a # b # c # d # r \<Rightarrow>
          if is_digit a \<and> is_digit b \<and> is_digit c \<and> is_digit d then [([a, b, c, d], r)] else []
      | _ \<Rightarrow> [])"

definition re_m :: "string \<Rightarrow> (string \<times> string) list" where
  "re_m s =
     re_class2 (\<lambda>c. c = CHR ''1'') (char_in (CHR ''0'') (CHR ''2'')) s @
     re_class2 (\<lambda>c. c = CHR ''0'') (char_in (CHR ''1'') (CHR ''9'')) s @
     re_class1 (char_in (CHR ''1'') (CHR ''9'')) s"

definition re_d :: "string \<Rightarrow> (string \<times> string) list" where
  "re_d s =
     re_class2 (\<lambda>c. c = CHR ''3'') (char_in (CHR ''0'') (CHR ''1'')) s @
     re_class2 (char_in (CHR ''1'') (CHR ''2'')) is_digit s @
     re_class2 (\<lambda>c. c = CHR ''0'') (char_in (CHR ''1'') (CHR ''9'')) s @
     re_class1 (char_in (CHR ''1'') (CHR ''9'')) s @
     re_class2 (\<lambda>c. c = CHR '' '') (char_in (CHR ''1'') (CHR ''9'')) s"

definition re_matches :: "string \<Rightarrow> (string \<times> string \<times> string \<times> string) list" where
  "re_matches s =
     [(ty, tm, td, r5).
        (ty, r1) \<leftarrow> re_Y s, r2 \<leftarrow> re_lit (CHR ''-'') r1,
        (tm, r3) \<leftarrow> re_m r2, r4 \<leftarrow> re_lit (CHR ''-'') r3,
        (td, r5) \<leftarrow> re_d r4]"

text \<open>
  \<open>int(text)\<close> on the text of a group: decimal digits, after a space in the last
  alternative of the day (\<open>int\<close> ignores surrounding white space).
\<close>

definition py_int :: "string \<Rightarrow> nat" where
  "py_int text =
     foldl (\<lambda>n c. 10 * n + digit_val c) 0 (dropWhile (\<lambda>c. c = CHR '' '') text)"

text \<open>
  No match, input left over after the match, and a date that does not exist all raise
  \<open>ValueError\<close>.
\<close>

definition strptime :: "string \<Rightarrow> py_error + datetime" where
  "strptime s =
     (case re_matches s of
        [] \<Rightarrow> Inl ValueError
      | (ty, tm, td, rest) # _ \<Rightarrow>
          if rest \<noteq> [] then Inl ValueError
          else mk_date (py_int ty) (py_int tm) (py_int td))"

section \<open>The overdue predicate\<close>

text \<open>
  \<open>is_overdue now due_date\<close>: \<open>now\<close> is the value that \<open>datetime.now()\<close> returns in this
  call. Only \<open>ValueError\<close> is caught.
\<close>

definition is_overdue :: "datetime \<Rightarrow> string \<Rightarrow> py_error + bool" where
  "is_overdue now due_date =
     (case strptime due_date of
        Inr due \<Rightarrow> Inr (dt_less due now)
      | Inl ValueError \<Rightarrow> Inr False
      | Inl e \<Rightarrow> Inl e)"

section \<open>Tasks and the aggregate statistics (calculate_task_stats)\<close>

record task =
  username :: string
  title :: string
  description :: string
  assigned_date :: string
  due_date :: string
  completed :: string

record task_stats =
  ts_total :: int
  ts_completed :: int
  ts_uncompleted :: int
  ts_overdue_uncompleted :: int
  ts_incomplete_percent :: pynum
  ts_overdue_percent :: pynum

text \<open>
  Every call of \<open>is_overdue\<close> reads the clock anew. \<open>clock i\<close> is the reading taken
  while the task at position \<open>i\<close> of the collection is examined (each loop calls
  \<open>is_overdue\<close> at most once per task); a clock that stands still is the constant
  function.

  \<open>sum(1 for task in tasks if task["completed"] == "No" and is_overdue(...))\<close>:
  \<open>and\<close> evaluates \<open>is_overdue\<close> only for a task whose flag is \<open>"No"\<close>.
\<close>

fun count_overdue :: "(nat \<Rightarrow> datetime) \<Rightarrow> nat \<Rightarrow> task list \<Rightarrow> py_error + int" where
  "count_overdue clock i [] = Inr 0"
| "count_overdue clock i (t # ts) =
     (case (if completed t = ''No'' then is_overdue (clock i) (due_date t) else Inr False) of
        Inl e \<Rightarrow> Inl e
      | Inr b \<Rightarrow>
          (case count_overdue clock (Suc i) ts of
             Inl e \<Rightarrow> Inl e
           | Inr n \<Rightarrow> Inr ((if b then 1 else 0) + n)))"

definition calculate_task_stats ::
  "(nat \<Rightarrow> datetime) \<Rightarrow> task list \<Rightarrow> py_error + task_stats" where
  "calculate_task_stats clock tasks =
     (let total_tasks = int (length tasks);
          completed_tasks = sum_list [1. t \<leftarrow> tasks, completed t = ''Yes''];
          uncompleted = total_tasks - completed_tasks
      in case count_overdue clock 0 tasks of
           Inl e \<Rightarrow> Inl e
         | Inr overdue_uncompleted \<Rightarrow>
             (case percent_of uncompleted total_tasks of
                Inl e \<Rightarrow> Inl e
              | Inr incomplete_percent \<Rightarrow>
                  (case percent_of overdue_uncompleted total_tasks of
                     Inl e \<Rightarrow> Inl e
                   | Inr overdue_percent \<Rightarrow>
                       Inr \<lparr>ts_total = total_tasks,
                            ts_completed = completed_tasks,
                            ts_uncompleted = uncompleted,
                            ts_overdue_uncompleted = overdue_uncompleted,
                            ts_incomplete_percent = py_round2 incomplete_percent,
                            ts_overdue_percent = py_round2 overdue_percent\<rparr>)))"

section \<open>Per-user statistics (calculate_user_stats)\<close>

text \<open>
  A dict is an association list with distinct keys, in insertion order; assigning to a
  key that is present keeps its position (\<open>AList.update\<close>). \<open>users\<close> maps user names
  to passwords.
\<close>

definition is_dict :: "('k \<times> 'v) list \<Rightarrow> bool" where
  "is_dict d = distinct (map fst d)"

text \<open>The inner dict of a user while the tasks are tallied.\<close>

record user_counts =
  uc_tasks :: int
  uc_completed :: int
  uc_overdue :: int

text \<open>The inner dict of a user once the four percentages have been added.\<close>

record user_stat =
  us_tasks :: int
  us_completed :: int
  us_overdue :: int
  us_percent_total :: pynum
  us_percent_completed :: pynum
  us_percent_incomplete :: pynum
  us_percent_overdue :: pynum

record user_report =
  ur_total_users :: int
  ur_total_tasks :: int
  ur_user_stats :: "(string \<times> user_stat) list"

definition zero_counts :: user_counts where
  "zero_counts = \<lparr>uc_tasks = 0, uc_completed = 0, uc_overdue = 0\<rparr>"

text \<open>\<open>{username: {"tasks": 0, "completed": 0, "overdue": 0} for username in users}\<close>\<close>

definition init_user_stats :: "(string \<times> string) list \<Rightarrow> (string \<times> user_counts) list" where
  "init_user_stats users =
     foldl (\<lambda>d u. AList.update u zero_counts d) [] (map fst users)"

text \<open>The body of the loop over the tasks; \<open>now\<close> is the clock reading of this pass.\<close>

definition tally_task ::
  "datetime \<Rightarrow> (string \<times> user_counts) list \<Rightarrow> task \<Rightarrow> py_error + (string \<times> user_counts) list"
  where
  "tally_task now stats t =
     (let u = username t
      in case map_of stats u of
           None \<Rightarrow> Inr stats
         | Some c \<Rightarrow>
             (let c1 = c\<lparr>uc_tasks := uc_tasks c + 1\<rparr>
              in if completed t = ''Yes''
                 then Inr (AList.update u (c1\<lparr>uc_completed := uc_completed c1 + 1\<rparr>) stats)
                 else (case is_overdue now (due_date t) of
                         Inl e \<Rightarrow> Inl e
                       | Inr b \<Rightarrow>
                           Inr (AList.update u
                                  (if b then c1\<lparr>uc_overdue := uc_overdue c1 + 1\<rparr> else c1)
                                  stats))))"

fun tally ::
  "(nat \<Rightarrow> datetime) \<Rightarrow> nat \<Rightarrow> (string \<times> user_counts) list \<Rightarrow> task list
     \<Rightarrow> py_error + (string \<times> user_counts) list" where
  "tally clock i stats [] = Inr stats"
| "tally clock i stats (t # ts) =
     (case tally_task (clock i) stats t of
        Inl e \<Rightarrow> Inl e
      | Inr stats' \<Rightarrow> tally clock (Suc i) stats' ts)"

text \<open>The body of the loop that adds the percentages and rounds them.\<close>

definition add_percentages :: "int \<Rightarrow> user_counts \<Rightarrow> py_error + user_stat" where
  "add_percentages total_tasks c =
     (let tasks_assigned = uc_tasks c
      in case percent_of tasks_assigned total_tasks of
           Inl e \<Rightarrow> Inl e
         | Inr p_total \<Rightarrow>
        (case percent_of (uc_completed c) tasks_assigned of
           Inl e \<Rightarrow> Inl e
         | Inr p_completed \<Rightarrow>
        (case percent_of (tasks_assigned - uc_completed c) tasks_assigned of
           Inl e \<Rightarrow> Inl e
         | Inr p_incomplete \<Rightarrow>
        (case percent_of (uc_overdue c) tasks_assigned of
           Inl e \<Rightarrow> Inl e
         | Inr p_overdue \<Rightarrow>
             Inr \<lparr>us_tasks = uc_tasks c, us_completed = uc_completed c,
                  us_overdue = uc_overdue c,
                  us_percent_total = py_round2 p_total,
                  us_percent_completed = py_round2 p_completed,
                  us_percent_incomplete = py_round2 p_incomplete,
                  us_percent_overdue = py_round2 p_overdue\<rparr>))))"

fun add_all_percentages ::
  "int \<Rightarrow> (string \<times> user_counts) list \<Rightarrow> py_error + (string \<times> user_stat) list" where
  "add_all_percentages total_tasks [] = Inr []"
| "add_all_percentages total_tasks ((u, c) # rest) =
     (case add_percentages total_tasks c of
        Inl e \<Rightarrow> Inl e
      | Inr r \<Rightarrow>
          (case add_all_percentages total_tasks rest of
             Inl e \<Rightarrow> Inl e
           | Inr rs \<Rightarrow> Inr ((u, r) # rs)))"

definition calculate_user_stats ::
  "(nat \<Rightarrow> datetime) \<Rightarrow> task list \<Rightarrow> (string \<times> string) list \<Rightarrow> py_error + user_report"
  where
  "calculate_user_stats clock tasks users =
     (let total_tasks = int (length tasks);
          total_users = int (length users)
      in case tally clock 0 (init_user_stats users) tasks of
           Inl e \<Rightarrow> Inl e
         | Inr counts \<Rightarrow>
             (case add_all_percentages total_tasks counts of
                Inl e \<Rightarrow> Inl e
              | Inr stats \<Rightarrow>
                  Inr \<lparr>ur_total_users = total_users, ur_total_tasks = total_tasks,
                       ur_user_stats = stats\<rparr>))"

section \<open>Text: strip, split, lines\<close>

definition LF :: char where
  "LF = CHR 0x0A"

definition CR :: char where
  "CR = CHR 0x0D"

text \<open>
  The white space of \<open>str.strip()\<close> among the code points below 256: U+0009 .. U+000D,
  U+001C .. U+0020, U+0085 and U+00A0.
\<close>

definition is_space :: "char \<Rightarrow> bool" where
  "is_space c =
     (let n = (of_char c :: nat)
      in (9 \<le> n \<and> n \<le> 13) \<or> (28 \<le> n \<and> n \<le> 32) \<or> n = 133 \<or> n = 160)"

definition py_strip :: "string \<Rightarrow> string" where
  "py_strip s = rev (dropWhile is_space (rev (dropWhile is_space s)))"

text \<open>
  \<open>s.split(sep)\<close> cuts at the occurrences of \<open>sep\<close> found from left to right. The
  program always passes the separator \<open>", "\<close>; Python raises on an empty separator,
  for which the model keeps the string whole.
\<close>

function py_split :: "string \<Rightarrow> string \<Rightarrow> string list" where
  "py_split sep [] = [[]]"
| "py_split sep (c # cs) =
     (if sep \<noteq> [] \<and> take (length sep) (c # cs) = sep
      then [] # py_split sep (drop (length sep) (c # cs))
      else (case py_split sep cs of
              p # ps \<Rightarrow> (c # p) # ps
            | [] \<Rightarrow> [[c]]))"
  by pat_completeness auto
termination
  by (relation "measure (\<lambda>(sep, s). length s)") (auto simp: neq_Nil_conv)

text \<open>
  A file opened in text mode translates \<open>\r\n\<close> and a lone \<open>\r\<close> to \<open>\n\<close> on reading,
  and iterating over it yields the lines, each with its terminating \<open>\n\<close> (the last
  line may lack one).
\<close>

fun universal_newlines :: "string \<Rightarrow> string" where
  "universal_newlines [] = []"
| "universal_newlines [c] = [if c = CR then LF else c]"
| "universal_newlines (c # d # ds) =
     (if c = CR
      then (if d = LF then LF # universal_newlines ds else LF # universal_newlines (d # ds))
      else c # universal_newlines (d # ds))"

fun py_lines :: "string \<Rightarrow> string list" where
  "py_lines [] = []"
| "py_lines (c # cs) =
     (if c = LF then [c] # py_lines cs
      else (case py_lines cs of
              [] \<Rightarrow> [[c]]
            | l # ls \<Rightarrow> (c # l) # ls))"

text \<open>\<open>str(n)\<close> for an int.\<close>

function show_nat :: "nat \<Rightarrow> string" where
  "show_nat n =
     (if n < 10 then [char_of (48 + n)]
      else show_nat (n div 10) @ [char_of (48 + n mod 10)])"
  by pat_completeness auto
termination
  by (relation "measure (\<lambda>n. n)") auto

definition show_int :: "int \<Rightarrow> string" where
  "show_int i = (if i < 0 then CHR ''-'' # show_nat (nat (- i)) else show_nat (nat i))"

section \<open>Files and the terminal\<close>

text \<open>
  The world of the program: the text files by path, the faults of the file system, and
  the trace of what the program did to the outside (files opened, lines printed),
  oldest first. Side effects persist when an exception is raised, so every operation
  returns its result together with the world. Written text is stored as it is (the
  line separator of the platform is \<open>\n\<close>).

  Writing a file is a sequence of operations: the \<open>open\<close>, numbered 0, then the
  \<open>write\<close> calls, numbered from 1, then the closing of the file at the end of the
  \<open>with\<close> block. \<open>write_fault w path = Some k\<close> says that operation \<open>k\<close> on \<open>path\<close>
  raises: \<open>PermissionError\<close> at the \<open>open\<close>, \<open>OSError\<close> later. What a failed write
  leaves in the file depends on buffering; the model keeps the text of the \<open>write\<close>
  calls that returned, and no property below depends on it. \<open>unwritable w\<close> is the set
  of the paths that have a fault.
\<close>

datatype event = OpenRead string | OpenWrite string | Print string

record world =
  files :: "string \<rightharpoonup> string"
  write_fault :: "string \<rightharpoonup> nat"
  trace :: "event list"

definition unwritable :: "world \<Rightarrow> string set" where
  "unwritable w = {path. write_fault w path \<noteq> None}"

definition log_event :: "event \<Rightarrow> world \<Rightarrow> world" where
  "log_event ev w = w\<lparr>trace := trace w @ [ev]\<rparr>"

definition py_print :: "string \<Rightarrow> world \<Rightarrow> world" where
  "py_print text w = log_event (Print text) w"

definition open_r :: "string \<Rightarrow> world \<Rightarrow> (py_error + string) \<times> world" where
  "open_r path w =
     (let w1 = log_event (OpenRead path) w
      in case files w path of
           None \<Rightarrow> (Inl FileNotFoundError, w1)
         | Some text \<Rightarrow> (Inr (universal_newlines text), w1))"

definition open_w :: "string \<Rightarrow> world \<Rightarrow> (py_error + unit) \<times> world" where
  "open_w path w =
     (let w1 = log_event (OpenWrite path) w
      in if write_fault w path = Some 0 then (Inl PermissionError, w1)
         else (Inr (), w1\<lparr>files := (files w1)(path \<mapsto> [])\<rparr>))"

definition file_write :: "string \<Rightarrow> string \<Rightarrow> world \<Rightarrow> world" where
  "file_write path text w =
     w\<lparr>files := (files w)(path \<mapsto> (case files w path of None \<Rightarrow> text | Some old \<Rightarrow> old @ text))\<rparr>"

text \<open>
  The \<open>write\<close> calls of a \<open>with\<close> block, from operation \<open>k\<close> on, and the closing of
  the file after the last of them.
\<close>

fun write_chunks :: "string \<Rightarrow> nat \<Rightarrow> string list \<Rightarrow> world \<Rightarrow> (py_error + unit) \<times> world" where
  "write_chunks path k [] w =
     (if write_fault w path = Some k then (Inl OSError, w) else (Inr (), w))"
| "write_chunks path k (c # cs) w =
     (if write_fault w path = Some k then (Inl OSError, w)
      else write_chunks path (Suc k) cs (file_write path c w))"

text \<open>\<open>with open(path, "w") as file:\<close> followed by the given \<open>file.write\<close> calls.\<close>

definition write_file :: "string \<Rightarrow> string list \<Rightarrow> world \<Rightarrow> (py_error + unit) \<times> world" where
  "write_file path chunks w =
     (case open_w path w of
        (Inl e, w1) \<Rightarrow> (Inl e, w1)
      | (Inr _, w1) \<Rightarrow> write_chunks path 1 chunks w1)"

section \<open>The record store (load_tasks, save_tasks, load_users)\<close>

definition quoted :: "string \<Rightarrow> string" where
  "quoted s = [CHR 0x27] @ s @ [CHR 0x27]"

definition load_task_line :: "task list \<times> world \<Rightarrow> string \<Rightarrow> task list \<times> world" where
  "load_task_line st line =
     (let parts = py_split '', '' (py_strip line)
      in if length parts \<noteq> 6
         then (fst st,
               py_print (''Warning: Skipping invalid line: '' @ quoted (py_strip line)) (snd st))
         else (fst st @ [\<lparr>username = parts ! 0, title = parts ! 1, description = parts ! 2,
                          assigned_date = parts ! 3, due_date = parts ! 4,
                          completed = parts ! 5\<rparr>],
               snd st))"

definition load_tasks :: "world \<Rightarrow> (py_error + task list) \<times> world" where
  "load_tasks w =
     (case open_r ''tasks.txt'' w of
        (Inr text, w1) \<Rightarrow>
          (let st = foldl load_task_line ([], w1) (py_lines text) in (Inr (fst st), snd st))
      | (Inl FileNotFoundError, w1) \<Rightarrow>
          (let w2 = py_print ''Error: tasks.txt not found. Creating empty file.'' w1
           in case write_file ''tasks.txt'' [] w2 of
                (Inl e, w3) \<Rightarrow> (Inl e, w3)
              | (Inr _, w3) \<Rightarrow> (Inr [], w3))
      | (Inl e, w1) \<Rightarrow> (Inl e, w1))"

definition task_line :: "task \<Rightarrow> string" where
  "task_line t =
     username t @ '', '' @ title t @ '', '' @ description t @ '', '' @ assigned_date t @
     '', '' @ due_date t @ '', '' @ completed t @ [LF]"

definition save_tasks :: "task list \<Rightarrow> world \<Rightarrow> (py_error + unit) \<times> world" where
  "save_tasks tasks w = write_file ''tasks.txt'' (map task_line tasks) w"

definition load_user_line ::
  "(string \<times> string) list \<times> world \<Rightarrow> string \<Rightarrow> (string \<times> string) list \<times> world" where
  "load_user_line st line =
     (let parts = py_split '', '' (py_strip line)
      in if length parts \<noteq> 2
         then (fst st,
               py_print (''Warning: Skipping invalid line: '' @ quoted (py_strip line)) (snd st))
         else (AList.update (parts ! 0) (parts ! 1) (fst st), snd st))"

definition load_users :: "world \<Rightarrow> (py_error + (string \<times> string) list) \<times> world" where
  "load_users w =
     (case open_r ''user.txt'' w of
        (Inr text, w1) \<Rightarrow>
          (let st = foldl load_user_line ([], w1) (py_lines text) in (Inr (fst st), snd st))
      | (Inl FileNotFoundError, w1) \<Rightarrow>
          (let w2 = py_print ''Error: user.txt not found. Creating new file with admin.'' w1
           in case write_file ''user.txt'' [''admin, adm1n'' @ [LF]] w2 of
                (Inl e, w3) \<Rightarrow> (Inl e, w3)
              | (Inr _, w3) \<Rightarrow> (Inr (AList.update ''admin'' ''adm1n'' []), w3))
      | (Inl e, w1) \<Rightarrow> (Inl e, w1))"

section \<open>The report writer (generate_reports)\<close>

text \<open>
  An f-string renders an int in decimal and a float by \<open>repr\<close>; \<open>float_repr\<close>, the
  shortest decimal that reads back as the same float, is a parameter of the model.
\<close>

definition format_num :: "(rat \<Rightarrow> string) \<Rightarrow> pynum \<Rightarrow> string" where
  "format_num float_repr v = (case v of PyInt n \<Rightarrow> show_int n | PyFloat x \<Rightarrow> float_repr x)"

definition task_overview_text :: "(rat \<Rightarrow> string) \<Rightarrow> task_stats \<Rightarrow> string list" where
  "task_overview_text float_repr s =
     [''Task Overview'' @ [LF],
      ''Total tasks: '' @ show_int (ts_total s) @ [LF],
      ''Completed tasks: '' @ show_int (ts_completed s) @ [LF],
      ''Uncompleted tasks: '' @ show_int (ts_uncompleted s) @ [LF],
      ''Overdue uncompleted tasks: '' @ show_int (ts_overdue_uncompleted s) @ [LF],
      ''Incomplete percentage: '' @ format_num float_repr (ts_incomplete_percent s) @ ''%'' @ [LF],
      ''Overdue percentage: '' @ format_num float_repr (ts_overdue_percent s) @ ''%'' @ [LF]]"

definition user_block_text :: "(rat \<Rightarrow> string) \<Rightarrow> string \<times> user_stat \<Rightarrow> string list" where
  "user_block_text float_repr e =
     (let name = fst e; stats = snd e
      in [[LF] @ ''User: '' @ name @ [LF],
          ''Tasks assigned: '' @ show_int (us_tasks stats) @ [LF],
          ''Percentage of total tasks: '' @ format_num float_repr (us_percent_total stats)
             @ ''%'' @ [LF],
          ''Percentage completed: '' @ format_num float_repr (us_percent_completed stats)
             @ ''%'' @ [LF],
          ''Percentage incomplete: '' @ format_num float_repr (us_percent_incomplete stats)
             @ ''%'' @ [LF],
          ''Percentage overdue: '' @ format_num float_repr (us_percent_overdue stats)
             @ ''%'' @ [LF]])"

definition user_overview_text :: "(rat \<Rightarrow> string) \<Rightarrow> user_report \<Rightarrow> string list" where
  "user_overview_text float_repr r =
     [''User Overview'' @ [LF],
      ''Total users: '' @ show_int (ur_total_users r) @ [LF],
      ''Total tasks: '' @ show_int (ur_total_tasks r) @ [LF]] @
     concat (map (user_block_text float_repr) (ur_user_stats r))"

text \<open>
  The two \<open>try\<close> blocks of \<open>generate_reports\<close>, after the statistics are computed. The
  \<open>open\<close>, the \<open>write\<close> calls and the closing of the file are all inside the \<open>try\<close>:
  each handler catches an I/O error of any of them, prints its message and returns
  from the function.
\<close>

definition write_reports ::
  "(rat \<Rightarrow> string) \<Rightarrow> task_stats \<Rightarrow> user_report \<Rightarrow> world \<Rightarrow> (py_error + unit) \<times> world" where
  "write_reports float_repr task_stats user_stats w =
     (case write_file ''task_overview.txt'' (task_overview_text float_repr task_stats) w of
        (Inl e, w1) \<Rightarrow>
          if is_io_error e
          then (Inr (), py_print ''Error: Could not write to task_overview.txt'' w1)
          else (Inl e, w1)
      | (Inr _, w1) \<Rightarrow>
          (case write_file ''user_overview.txt'' (user_overview_text float_repr user_stats) w1 of
             (Inl e, w2) \<Rightarrow>
               if is_io_error e
               then (Inr (), py_print ''Error: Could not write to user_overview.txt'' w2)
               else (Inl e, w2)
           | (Inr _, w2) \<Rightarrow>
               (Inr (),
                py_print ''Reports generated: task_overview.txt, user_overview.txt'' w2)))"

text \<open>
  \<open>clock_t\<close> and \<open>clock_u\<close> are the clock readings during \<open>calculate_task_stats\<close> and
  \<open>calculate_user_stats\<close>.
\<close>

definition generate_reports ::
  "(nat \<Rightarrow> datetime) \<Rightarrow> (nat \<Rightarrow> datetime) \<Rightarrow> (rat \<Rightarrow> string) \<Rightarrow> world
     \<Rightarrow> (py_error + unit) \<times> world" where
  "generate_reports clock_t clock_u float_repr w =
     (case load_tasks w of
        (Inl e, w1) \<Rightarrow> (Inl e, w1)
      | (Inr tasks, w1) \<Rightarrow>
     (case load_users w1 of
        (Inl e, w2) \<Rightarrow> (Inl e, w2)
      | (Inr users, w2) \<Rightarrow>
     (case calculate_task_stats clock_t tasks of
        Inl e \<Rightarrow> (Inl e, w2)
      | Inr task_stats \<Rightarrow>
     (case calculate_user_stats clock_u tasks users of
        Inl e \<Rightarrow> (Inl e, w2)
      | Inr user_stats \<Rightarrow> write_reports float_repr task_stats user_stats w2))))"

section \<open>Example data\<close>

text \<open>The scenario of the specification: three users, four tasks, one of an unknown user.\<close>

definition example_now :: datetime where
  "example_now = \<lparr>year = 2024, month = 6, day = 15, hour = 10, minute = 30, second = 0,
                   microsecond = 0\<rparr>"

definition example_task :: "string \<Rightarrow> string \<Rightarrow> string \<Rightarrow> task" where
  "example_task u flag due =
     \<lparr>username = u, title = ''Report'', description = ''Write the report'',
      assigned_date = ''2024-01-01'', due_date = due, completed = flag\<rparr>"

definition example_tasks :: "task list" where
  "example_tasks =
     [example_task ''alice'' ''Yes'' ''2024-01-10'',
      example_task ''alice'' ''No'' ''2024-01-10'',
      example_task ''bob'' ''No'' ''2025-01-10'',
      example_task ''charlie'' ''Yes'' ''2024-01-10'']"

definition example_users :: "(string \<times> string) list" where
  "example_users = [(''alice'', ''a1''), (''bob'', ''b2''), (''admin'', ''adm1n'')]"

section \<open>Auxiliary notions for the proofs\<close>

text \<open>The effect of one pass of the tally loop on the counters of the task's user.\<close>

definition bump :: "datetime \<Rightarrow> task \<Rightarrow> user_counts \<Rightarrow> user_counts" where
  "bump now t c =
     c\<lparr>uc_tasks := uc_tasks c + 1,
       uc_completed := uc_completed c + (if completed t = ''Yes'' then 1 else 0),
       uc_overdue := uc_overdue c +
        (if completed t \<noteq> ''Yes'' \<and> is_overdue now (due_date t) = Inr True then 1 else 0)\<rparr>"

text \<open>
  The counters of user \<open>u\<close> after the tally loop, and the record of a user after the
  percentages have been added, in closed form.
\<close>

definition user_tally :: "(nat \<Rightarrow> datetime) \<Rightarrow> task list \<Rightarrow> string \<Rightarrow> user_counts" where
  "user_tally clock tasks u =
     \<lparr>uc_tasks = int (length (filter (\<lambda>t. username t = u) tasks)),
      uc_completed = int (length (filter (\<lambda>t. username t = u \<and> completed t = ''Yes'') tasks)),
      uc_overdue = int (length (filter (\<lambda>(i, t). username t = u \<and> completed t \<noteq> ''Yes'' \<and>
                                   is_overdue (clock i) (due_date t) = Inr True)
                          (enumerate 0 tasks)))\<rparr>"

definition with_percentages :: "int \<Rightarrow> user_counts \<Rightarrow> user_stat" where
  "with_percentages n c =
     \<lparr>us_tasks = uc_tasks c, us_completed = uc_completed c, us_overdue = uc_overdue c,
      us_percent_total = py_round2
        (if n \<noteq> 0 then PyFloat (float_mul_int (fl (of_int (uc_tasks c) / of_int n)) 100)
         else PyInt 0),
      us_percent_completed = py_round2
        (if uc_tasks c \<noteq> 0
         then PyFloat (float_mul_int (fl (of_int (uc_completed c) / of_int (uc_tasks c))) 100)
         else PyInt 0),
      us_percent_incomplete = py_round2
        (if uc_tasks c \<noteq> 0
         then PyFloat (float_mul_int
                (fl (of_int (uc_tasks c - uc_completed c) / of_int (uc_tasks c))) 100)
         else PyInt 0),
      us_percent_overdue = py_round2
        (if uc_tasks c \<noteq> 0
         then PyFloat (float_mul_int (fl (of_int (uc_overdue c) / of_int (uc_tasks c))) 100)
         else PyInt 0)\<rparr>"

text \<open>
  A clock that stands still, and a user with 160 tasks of which 23 are completed.
\<close>

definition example_clock :: "nat \<Rightarrow> datetime" where
  "example_clock i = example_now"

definition busy_tasks :: "task list" where
  "busy_tasks =
     replicate 23 (example_task ''alice'' ''Yes'' ''2024-01-10'') @
     replicate 137 (example_task ''alice'' ''No'' ''2025-01-10'')"

section \<open>Collections that survive the round trip through storage\<close>

text \<open>
  \<open>sub in s\<close> of Python: \<open>sub\<close> occurs in \<open>s\<close>. A field is plain when it contains neither
  the delimiter \<open>", "\<close> nor a line break. A task is storable when its fields are plain,
  its username does not begin with white space and its completion flag is not empty
  and does not end with white space: \<open>load_tasks\<close> strips each line before splitting it.
\<close>

fun py_in :: "string \<Rightarrow> string \<Rightarrow> bool" where
  "py_in sub [] = (sub = [])"
| "py_in sub (c # cs) = (take (length sub) (c # cs) = sub \<or> py_in sub cs)"

definition plain_field :: "string \<Rightarrow> bool" where
  "plain_field f = (\<not> py_in '', '' f \<and> LF \<notin> set f \<and> CR \<notin> set f)"

definition storable :: "task \<Rightarrow> bool" where
  "storable t =
     (plain_field (username t) \<and> plain_field (title t) \<and> plain_field (description t) \<and>
      plain_field (assigned_date t) \<and> plain_field (due_date t) \<and> plain_field (completed t) \<and>
      (username t = [] \<or> \<not> is_space (hd (username t))) \<and>
      completed t \<noteq> [] \<and> \<not> is_space (last (completed t)))"

definition empty_world :: world where
  "empty_world = \<lparr>files = Map.empty, write_fault = Map.empty, trace = []\<rparr>"

text \<open>The line of a task without its line break.\<close>

definition task_body :: "task \<Rightarrow> string" where
  "task_body t =
     username t @ '', '' @ title t @ '', '' @ description t @ '', '' @ assigned_date t @
     '', '' @ due_date t @ '', '' @ completed t"

text \<open>
  Two tasks none of whose fields contains the delimiter: one whose username begins with
  a space, one whose completion flag is empty.
\<close>

definition spaced_task :: task where
  "spaced_task = example_task '' bob'' ''No'' ''2025-01-10''"

definition unflagged_task :: task where
  "unflagged_task = example_task ''bob'' '''' ''2025-01-10''"

text \<open>
  Worlds without files: one in which \<open>task_overview.txt\<close> cannot be opened for writing,
  one in which the third \<open>write\<close> to \<open>task_overview.txt\<close> fails, one in which the second
  \<open>write\<close> to \<open>user_overview.txt\<close> fails. Then a stand-in for \<open>repr\<close> on floats (the
  reports of these worlds contain no float).
\<close>

definition locked_world :: world where
  "locked_world =
     \<lparr>files = Map.empty, write_fault = [''task_overview.txt'' \<mapsto> 0], trace = []\<rparr>"

definition full_disk_world :: world where
  "full_disk_world =
     \<lparr>files = Map.empty, write_fault = [''task_overview.txt'' \<mapsto> 3], trace = []\<rparr>"

definition second_report_world :: world where
  "second_report_world =
     \<lparr>files = Map.empty, write_fault = [''user_overview.txt'' \<mapsto> 2], trace = []\<rparr>"

definition example_repr :: "rat \<Rightarrow> string" where
  "example_repr x = ''?''"

section \<open>The overdue predicate: properties\<close>

lemma mk_date_error: "mk_date y m d = Inl e \<Longrightarrow> e = ValueError"
  by (auto simp: mk_date_def split: if_splits)

lemma strptime_error: "strptime s = Inl e \<Longrightarrow> e = ValueError"
  by (auto simp: strptime_def split: list.splits if_splits dest: mk_date_error)

lemma is_overdue_Inr: "is_overdue now s = Inr (is_overdue now s = Inr True)"
proof (cases "strptime s")
  case (Inl e)
  then have "e = ValueError" by (rule strptime_error)
  with Inl show ?thesis by (simp add: is_overdue_def)
next
  case (Inr d)
  then show ?thesis by (simp add: is_overdue_def)
qed

lemma mk_date_midnight:
  "mk_date y m d = Inr dt \<Longrightarrow> hour dt = 0 \<and> minute dt = 0 \<and> second dt = 0 \<and> microsecond dt = 0"
  by (auto simp: mk_date_def split: if_splits)

lemma strptime_midnight:
  "strptime s = Inr dt \<Longrightarrow> hour dt = 0 \<and> minute dt = 0 \<and> second dt = 0 \<and> microsecond dt = 0"
  by (auto simp: strptime_def split: list.splits if_splits dest: mk_date_midnight)

lemma dt_less_midnight:
  "hour d = 0 \<and> minute d = 0 \<and> second d = 0 \<and> microsecond d = 0 \<Longrightarrow>
   dt_less d now \<longleftrightarrow>
     lex_less [year d, month d, day d] [year now, month now, day now] \<or>
     (year d = year now \<and> month d = month now \<and> day d = day now \<and>
      (0 < hour now \<or> 0 < minute now \<or> 0 < second now \<or> 0 < microsecond now))"
  by (auto simp: dt_less_def dt_tuple_def)

text \<open>
  C2. For every due-date string and every current timestamp, \<open>is_overdue\<close> returns true
  if and only if the string parses (by \<open>strptime\<close> with the format \<open>%Y-%m-%d\<close>) as a
  calendar date and that date, taken at midnight, is strictly earlier than the current
  timestamp. It never raises: the result is always \<open>Inr\<close>, and it is \<open>Inr False\<close> for
  every string that fails to parse. A due date equal to today's date is overdue exactly
  when the current time is past midnight.
\<close>

theorem is_overdue_iff_parsed_and_earlier:
  "(is_overdue now s = Inr True \<longleftrightarrow> (\<exists>d. strptime s = Inr d \<and> dt_less d now)) \<and>
   (is_overdue now s = Inr False \<longleftrightarrow> \<not> (\<exists>d. strptime s = Inr d \<and> dt_less d now)) \<and>
   (\<forall>e. strptime s = Inl e \<longrightarrow> is_overdue now s = Inr False) \<and>
   (\<forall>d. strptime s = Inr d \<longrightarrow>
      hour d = 0 \<and> minute d = 0 \<and> second d = 0 \<and> microsecond d = 0 \<and>
      (dt_less d now \<longleftrightarrow>
         lex_less [year d, month d, day d] [year now, month now, day now] \<or>
         (year d = year now \<and> month d = month now \<and> day d = day now \<and>
          (0 < hour now \<or> 0 < minute now \<or> 0 < second now \<or> 0 < microsecond now))))"
proof (cases "strptime s")
  case (Inl e)
  then have "e = ValueError" by (rule strptime_error)
  with Inl show ?thesis by (simp add: is_overdue_def)
next
  case (Inr d)
  have m: "hour d = 0 \<and> minute d = 0 \<and> second d = 0 \<and> microsecond d = 0"
    by (rule strptime_midnight [OF Inr])
  from Inr m dt_less_midnight [OF m, of now] show ?thesis
    by (simp add: is_overdue_def)
qed

theorem is_overdue_iff_parsed_and_earlier_witness:
  "strptime ''2024-06-15'' =
     Inr \<lparr>year = 2024, month = 6, day = 15, hour = 0, minute = 0, second = 0, microsecond = 0\<rparr> \<and>
   is_overdue \<lparr>year = 2024, month = 6, day = 15, hour = 0, minute = 0, second = 0, microsecond = 1\<rparr>
     ''2024-06-15'' = Inr True \<and>
   is_overdue \<lparr>year = 2024, month = 6, day = 15, hour = 0, minute = 0, second = 0, microsecond = 0\<rparr>
     ''2024-06-15'' = Inr False \<and>
   strptime ''15/06/2024'' = Inl ValueError \<and>
   is_overdue \<lparr>year = 2024, month = 6, day = 15, hour = 0, minute = 0, second = 0, microsecond = 1\<rparr>
     ''15/06/2024'' = Inr False"
proof -
  let ?d = "\<lparr>year = 2024, month = 6, day = 15, hour = 0, minute = 0, second = 0, microsecond = 0\<rparr>"
  let ?n = "\<lparr>year = 2024, month = 6, day = 15, hour = 0, minute = 0, second = 0, microsecond = 1\<rparr>"
  have p: "strptime ''2024-06-15'' = Inr ?d" by code_simp
  have q: "strptime ''15/06/2024'' = Inl ValueError" by code_simp
  have l1: "dt_less ?d ?n" by code_simp
  have l2: "\<not> dt_less ?d ?d" by code_simp
  show ?thesis
    using is_overdue_iff_parsed_and_earlier [of ?n "''2024-06-15''"]
      is_overdue_iff_parsed_and_earlier [of ?d "''2024-06-15''"]
      is_overdue_iff_parsed_and_earlier [of ?n "''15/06/2024''"] p q l1 l2
    by simp
qed

section \<open>Aggregate statistics: properties\<close>

lemma count_overdue_eq:
  "count_overdue clock k ts =
     Inr (int (length (filter (\<lambda>(i, t). completed t = ''No'' \<and> is_overdue (clock i) (due_date t) = Inr True) (enumerate k ts))))"
proof (induction ts arbitrary: k)
  case Nil
  show ?case by simp
next
  case (Cons t ts)
  show ?case
  proof (cases "completed t = ''No''")
    case True
    then show ?thesis
      using is_overdue_Inr [of "clock k" "due_date t"] by (auto simp: Cons.IH)
  next
    case False
    then show ?thesis by (simp add: Cons.IH)
  qed
qed

lemma sum_ones_filter: "sum_list (concat (map (\<lambda>t. if P t then [1::int] else []) xs)) = int (length (filter P xs))"
  by (induction xs) auto

lemma percent_of_Inr:
  "percent_of a b = Inr (if b \<noteq> 0 then PyFloat (float_mul_int (fl (of_int a / of_int b)) 100) else PyInt 0)"
  by (simp add: percent_of_def py_truediv_def)

lemma calculate_task_stats_Inr:
  "calculate_task_stats clock tasks =
     Inr \<lparr>ts_total = int (length tasks),
          ts_completed = int (length (filter (\<lambda>t. completed t = ''Yes'') tasks)),
          ts_uncompleted = int (length tasks) - int (length (filter (\<lambda>t. completed t = ''Yes'') tasks)),
          ts_overdue_uncompleted = int (length (filter (\<lambda>(i, t). completed t = ''No'' \<and> is_overdue (clock i) (due_date t) = Inr True) (enumerate 0 tasks))),
          ts_incomplete_percent = py_round2 (if tasks \<noteq> [] then PyFloat (float_mul_int (fl (of_int (int (length tasks) - int (length (filter (\<lambda>t. completed t = ''Yes'') tasks))) / of_int (int (length tasks)))) 100) else PyInt 0),
          ts_overdue_percent = py_round2 (if tasks \<noteq> [] then PyFloat (float_mul_int (fl (of_int (int (length (filter (\<lambda>(i, t). completed t = ''No'' \<and> is_overdue (clock i) (due_date t) = Inr True) (enumerate 0 tasks)))) / of_int (int (length tasks)))) 100) else PyInt 0)\<rparr>"
  by (simp add: calculate_task_stats_def Let_def count_overdue_eq percent_of_Inr sum_ones_filter)

lemma length_filter_enumerate:
  "length (filter (\<lambda>(i, t). P t) (enumerate k ts)) = length (filter P ts)"
  by (induction ts arbitrary: k) auto

lemma length_filter_mono:
  "(\<And>x. x \<in> set xs \<Longrightarrow> P x \<Longrightarrow> Q x) \<Longrightarrow> length (filter P xs) \<le> length (filter Q xs)"
  by (induction xs) auto

lemma length_filter_not:
  "int (length xs) - int (length (filter P xs)) = int (length (filter (\<lambda>x. \<not> P x) xs))"
  using sum_length_filter_compl [of P xs] by simp

lemma overdue_le_uncompleted:
  "length (filter (\<lambda>(i, t). completed t = ''No'' \<and> is_overdue (clock i) (due_date t) = Inr True)
      (enumerate k ts))
   \<le> length (filter (\<lambda>t. completed t \<noteq> ''Yes'') ts)"
proof -
  have "length (filter (\<lambda>(i, t). completed t = ''No'' \<and> is_overdue (clock i) (due_date t) = Inr True)
      (enumerate k ts)) \<le> length (filter (\<lambda>(i, t). completed t \<noteq> ''Yes'') (enumerate k ts))"
    by (rule length_filter_mono) auto
  then show ?thesis by (simp add: length_filter_enumerate)
qed

text \<open>
  C3. For every task collection (and every clock), \<open>calculate_task_stats\<close> returns
  total = the number of tasks, completed = the number of tasks whose flag equals
  \<open>"Yes"\<close>, uncompleted = total - completed (so completed + uncompleted = total), and
  overdue_uncompleted = the number of tasks whose flag equals \<open>"No"\<close> and for which the
  overdue predicate holds when the task is examined.
\<close>

theorem calculate_task_stats_counts:
  "\<exists>s. calculate_task_stats clock tasks = Inr s \<and>
       ts_total s = int (length tasks) \<and>
       ts_completed s = int (length (filter (\<lambda>t. completed t = ''Yes'') tasks)) \<and>
       ts_uncompleted s = ts_total s - ts_completed s \<and>
       ts_completed s + ts_uncompleted s = ts_total s \<and>
       ts_overdue_uncompleted s =
         int (length (filter (\<lambda>(i, t). completed t = ''No'' \<and>
                                  is_overdue (clock i) (due_date t) = Inr True)
                        (enumerate 0 tasks)))"
  by (simp add: calculate_task_stats_Inr)

theorem calculate_task_stats_counts_witness:
  "\<exists>s. calculate_task_stats (\<lambda>i. example_now) example_tasks = Inr s \<and>
       ts_total s = 4 \<and> ts_completed s = 2 \<and> ts_uncompleted s = 2 \<and>
       ts_overdue_uncompleted s = 1"
proof -
  have a: "length example_tasks = 4" by code_simp
  have b: "length (filter (\<lambda>t. completed t = ''Yes'') example_tasks) = 2" by code_simp
  have c: "length (filter (\<lambda>(i, t). completed t = ''No'' \<and>
                is_overdue ((\<lambda>i. example_now) i) (due_date t) = Inr True)
             (enumerate 0 example_tasks)) = 1" by code_simp
  show ?thesis
    using calculate_task_stats_counts [of "\<lambda>i. example_now" example_tasks] a b c by auto
qed

text \<open>
  C4. For every task collection, \<open>calculate_task_stats\<close> returns normally (the
  \<open>ZeroDivisionError\<close> of the division is never raised); when total is 0 both
  percentages are exactly the int 0; otherwise incomplete_percent is
  uncompleted / total * 100 and overdue_percent is overdue_uncompleted / total * 100,
  in float arithmetic, each rounded to two decimals.
\<close>

theorem calculate_task_stats_percentages:
  "\<exists>s. calculate_task_stats clock tasks = Inr s \<and>
       (ts_total s = 0 \<longleftrightarrow> tasks = []) \<and>
       (ts_total s = 0 \<longrightarrow>
          ts_incomplete_percent s = PyInt 0 \<and> ts_overdue_percent s = PyInt 0) \<and>
       (ts_total s \<noteq> 0 \<longrightarrow>
          ts_incomplete_percent s =
            py_round2 (PyFloat (float_mul_int
              (fl (of_int (ts_uncompleted s) / of_int (ts_total s))) 100)) \<and>
          ts_overdue_percent s =
            py_round2 (PyFloat (float_mul_int
              (fl (of_int (ts_overdue_uncompleted s) / of_int (ts_total s))) 100)))"
  by (simp add: calculate_task_stats_Inr)

theorem calculate_task_stats_percentages_witness:
  "(\<exists>s. calculate_task_stats (\<lambda>i. example_now) [] = Inr s \<and>
        ts_incomplete_percent s = PyInt 0 \<and> ts_overdue_percent s = PyInt 0) \<and>
   (\<exists>s. calculate_task_stats (\<lambda>i. example_now) example_tasks = Inr s \<and>
        ts_incomplete_percent s = PyFloat 50 \<and> ts_overdue_percent s = PyFloat 25)"
proof -
  have a: "py_round2 (PyFloat (float_mul_int (fl (of_int 2 / of_int 4)) 100)) = PyFloat 50"
    by code_simp
  have b: "py_round2 (PyFloat (float_mul_int (fl (of_int 1 / of_int 4)) 100)) = PyFloat 25"
    by code_simp
  have c: "calculate_task_stats (\<lambda>i. example_now) example_tasks = Inr s \<Longrightarrow>
           ts_total s = 4 \<and> ts_uncompleted s = 2 \<and> ts_overdue_uncompleted s = 1" for s
  proof -
    assume s: "calculate_task_stats (\<lambda>i. example_now) example_tasks = Inr s"
    have l: "length example_tasks = 4" by code_simp
    have y: "length (filter (\<lambda>t. completed t = ''Yes'') example_tasks) = 2" by code_simp
    have o: "length (filter (\<lambda>(i, t). completed t = ''No'' \<and>
                is_overdue example_now (due_date t) = Inr True)
             (enumerate 0 example_tasks)) = 1" by code_simp
    from s show ?thesis unfolding calculate_task_stats_Inr using l y o by auto
  qed
  show ?thesis
    using calculate_task_stats_percentages [of "\<lambda>i. example_now" "[]"]
      calculate_task_stats_percentages [of "\<lambda>i. example_now" example_tasks] a b c
    by auto
qed

text \<open>
  C10. For every task collection overdue_uncompleted <= uncompleted. A task whose
  flag is neither \<open>"Yes"\<close> nor \<open>"No"\<close> is counted in uncompleted and never in
  overdue_uncompleted, whatever its due date: in a collection \<open>xs @ t # ys\<close> it adds
  exactly 1 to the uncompleted tasks of \<open>xs\<close> and \<open>ys\<close> and nothing to their overdue
  tasks.
\<close>

theorem other_flag_uncompleted_not_overdue:
  "(\<exists>s. calculate_task_stats clock tasks = Inr s \<and>
        ts_overdue_uncompleted s \<le> ts_uncompleted s) \<and>
   (completed t \<noteq> ''Yes'' \<and> completed t \<noteq> ''No'' \<longrightarrow>
      (\<exists>s. calculate_task_stats clock (xs @ t # ys) = Inr s \<and>
         ts_uncompleted s =
           int (length (filter (\<lambda>u. completed u \<noteq> ''Yes'') xs)) + 1 +
           int (length (filter (\<lambda>u. completed u \<noteq> ''Yes'') ys)) \<and>
         ts_overdue_uncompleted s =
           int (length (filter (\<lambda>(i, u). completed u = ''No'' \<and>
                                    is_overdue (clock i) (due_date u) = Inr True)
                          (enumerate 0 xs))) +
           int (length (filter (\<lambda>(i, u). completed u = ''No'' \<and>
                                    is_overdue (clock i) (due_date u) = Inr True)
                          (enumerate (Suc (length xs)) ys)))))"
proof (intro conjI impI)
  show "\<exists>s. calculate_task_stats clock tasks = Inr s \<and>
        ts_overdue_uncompleted s \<le> ts_uncompleted s"
    using overdue_le_uncompleted [of clock 0 tasks]
    by (simp add: calculate_task_stats_Inr length_filter_not)
next
  assume t: "completed t \<noteq> ''Yes'' \<and> completed t \<noteq> ''No''"
  have e: "enumerate 0 (xs @ t # ys) = enumerate 0 xs @ (length xs, t) # enumerate (Suc (length xs)) ys"
    by (simp add: enumerate_append_eq)
  show "\<exists>s. calculate_task_stats clock (xs @ t # ys) = Inr s \<and>
         ts_uncompleted s =
           int (length (filter (\<lambda>u. completed u \<noteq> ''Yes'') xs)) + 1 +
           int (length (filter (\<lambda>u. completed u \<noteq> ''Yes'') ys)) \<and>
         ts_overdue_uncompleted s =
           int (length (filter (\<lambda>(i, u). completed u = ''No'' \<and>
                                    is_overdue (clock i) (due_date u) = Inr True)
                          (enumerate 0 xs))) +
           int (length (filter (\<lambda>(i, u). completed u = ''No'' \<and>
                                    is_overdue (clock i) (due_date u) = Inr True)
                          (enumerate (Suc (length xs)) ys)))"
    using t unfolding calculate_task_stats_Inr e
    by (simp add: length_filter_not [symmetric])
qed

theorem other_flag_uncompleted_not_overdue_witness:
  "completed (example_task ''bob'' ''yes'' ''2024-01-10'') \<noteq> ''Yes'' \<and>
   completed (example_task ''bob'' ''yes'' ''2024-01-10'') \<noteq> ''No'' \<and>
   is_overdue example_now (due_date (example_task ''bob'' ''yes'' ''2024-01-10'')) = Inr True \<and>
   (\<exists>s. calculate_task_stats (\<lambda>i. example_now) [example_task ''bob'' ''yes'' ''2024-01-10'']
           = Inr s \<and>
        ts_uncompleted s = 1 \<and> ts_overdue_uncompleted s = 0)"
proof -
  let ?t = "example_task ''bob'' ''yes'' ''2024-01-10''"
  have a: "completed ?t \<noteq> ''Yes'' \<and> completed ?t \<noteq> ''No''" by code_simp
  have b: "is_overdue example_now (due_date ?t) = Inr True" by code_simp
  show ?thesis
    using other_flag_uncompleted_not_overdue [of "\<lambda>i. example_now" "[]" ?t "[]" "[]"] a b
    by auto
qed

section \<open>Per-user statistics: properties\<close>

lemma map_other_keys:
  "u \<notin> fst ` set st \<Longrightarrow> map (\<lambda>(k, c). (k, if k = u then f c else c)) st = st"
  by (induction st) auto

lemma update_as_map:
  "distinct (map fst st) \<Longrightarrow> map_of st u = Some c \<Longrightarrow>
   AList.update u (f c) st = map (\<lambda>(k, c'). (k, if k = u then f c' else c')) st"
proof (induction st)
  case Nil
  then show ?case by simp
next
  case (Cons p st)
  obtain k c' where p: "p = (k, c')" by (cases p)
  show ?case
  proof (cases "k = u")
    case True
    with Cons.prems p have "c' = c" and "u \<notin> fst ` set st" by auto
    with True p show ?thesis by (simp add: map_other_keys)
  next
    case False
    with Cons p show ?thesis by simp
  qed
qed

lemma tally_task_Inr:
  assumes "distinct (map fst st)"
  shows "tally_task now st t =
           Inr (map (\<lambda>(k, c). (k, if k = username t then bump now t c else c)) st)"
proof (cases "map_of st (username t)")
  case None
  then have "username t \<notin> fst ` set st" by (simp add: map_of_eq_None_iff)
  with None show ?thesis by (simp add: tally_task_def map_other_keys)
next
  case (Some c)
  have r: "AList.update (username t) (bump now t c) st =
      map (\<lambda>(k, c'). (k, if k = username t then bump now t c' else c')) st"
    by (rule update_as_map [OF assms Some])
  have b: "is_overdue now (due_date t) = Inr (is_overdue now (due_date t) = Inr True)"
    by (rule is_overdue_Inr)
  show ?thesis
  proof (cases "completed t = ''Yes''")
    case True
    with Some r show ?thesis by (simp add: tally_task_def bump_def)
  next
    case False
    show ?thesis
    proof (cases "is_overdue now (due_date t) = Inr True")
      case True
      with Some r False show ?thesis by (simp add: tally_task_def bump_def)
    next
      case no: False
      with b have "is_overdue now (due_date t) = Inr False" by simp
      with Some r False show ?thesis by (simp add: tally_task_def bump_def)
    qed
  qed
qed

lemma tally_Inr:
  "distinct (map fst st) \<Longrightarrow>
   tally clock k st ts =
     Inr (map (\<lambda>(u, c). (u,
        c\<lparr>uc_tasks := uc_tasks c +
           int (length (filter (\<lambda>(i, t). username t = u) (enumerate k ts))),
         uc_completed := uc_completed c +
           int (length (filter (\<lambda>(i, t). username t = u \<and> completed t = ''Yes'')
                          (enumerate k ts))),
         uc_overdue := uc_overdue c +
           int (length (filter (\<lambda>(i, t). username t = u \<and> completed t \<noteq> ''Yes'' \<and>
                                    is_overdue (clock i) (due_date t) = Inr True)
                          (enumerate k ts)))\<rparr>)) st)"
proof (induction ts arbitrary: k st)
  case Nil
  have "map (\<lambda>(u, c). (u, c)) st = st"
    by (induction st) auto
  then show ?case by simp
next
  case (Cons t ts)
  let ?st1 = "map (\<lambda>(k', c). (k', if k' = username t then bump (clock k) t c else c)) st"
  have d1: "distinct (map fst ?st1)"
    using Cons.prems by (simp add: comp_def case_prod_unfold)
  have "tally clock k st (t # ts) = tally clock (Suc k) ?st1 ts"
    by (simp add: tally_task_Inr [OF Cons.prems])
  also note Cons.IH [OF d1]
  finally show ?case
    by (simp add: bump_def case_prod_unfold cong: map_cong)
qed

lemma update_new_key: "k \<notin> fst ` set al \<Longrightarrow> AList.update k v al = al @ [(k, v)]"
  by (induction al) auto

lemma foldl_update_new_keys:
  "distinct ks \<Longrightarrow> set ks \<inter> fst ` set acc = {} \<Longrightarrow>
   foldl (\<lambda>d u. AList.update u z d) acc ks = acc @ map (\<lambda>u. (u, z)) ks"
proof (induction ks arbitrary: acc)
  case Nil
  show ?case by simp
next
  case (Cons k ks)
  from Cons.prems have k: "k \<notin> fst ` set acc" by auto
  from Cons.prems have "set ks \<inter> fst ` set (acc @ [(k, z)]) = {}" by auto
  with Cons.prems Cons.IH [of "acc @ [(k, z)]"] k show ?case
    by (simp add: update_new_key)
qed

lemma init_user_stats_eq:
  "is_dict users \<Longrightarrow> init_user_stats users = map (\<lambda>(u, p). (u, zero_counts)) users"
  using foldl_update_new_keys [of "map fst users" "[]" zero_counts]
  by (simp add: is_dict_def init_user_stats_def comp_def case_prod_unfold)

lemma add_percentages_Inr: "add_percentages n c = Inr (with_percentages n c)"
  by (simp add: add_percentages_def with_percentages_def percent_of_Inr Let_def)

lemma add_all_percentages_Inr:
  "add_all_percentages n st = Inr (map (\<lambda>(u, c). (u, with_percentages n c)) st)"
  by (induction st) (auto simp: add_percentages_Inr)

lemma calculate_user_stats_Inr:
  assumes "is_dict users"
  shows "calculate_user_stats clock tasks users =
     Inr \<lparr>ur_total_users = int (length users), ur_total_tasks = int (length tasks),
          ur_user_stats =
            map (\<lambda>(u, p). (u, with_percentages (int (length tasks)) (user_tally clock tasks u)))
              users\<rparr>"
proof -
  have d: "distinct (map fst (map (\<lambda>(u, p). (u, zero_counts)) users))"
    using assms by (simp add: is_dict_def comp_def case_prod_unfold)
  have f: "length (filter (\<lambda>p. username (snd p) = u \<and> completed (snd p) = ''Yes'')
        (enumerate 0 tasks))
      = length (filter (\<lambda>t. username t = u \<and> completed t = ''Yes'') tasks)" for u
    using length_filter_enumerate [of "\<lambda>t. username t = u \<and> completed t = ''Yes''" 0 tasks]
    by (simp add: case_prod_unfold)
  have g: "length (filter (\<lambda>p. username (snd p) = u) (enumerate 0 tasks))
      = length (filter (\<lambda>t. username t = u) tasks)" for u
    using length_filter_enumerate [of "\<lambda>t. username t = u" 0 tasks]
    by (simp add: case_prod_unfold)
  show ?thesis
    unfolding calculate_user_stats_def init_user_stats_eq [OF assms] tally_Inr [OF d]
    by (simp add: add_all_percentages_Inr Let_def f g user_tally_def zero_counts_def
        case_prod_unfold comp_def)
qed

lemma fl_zero: "fl 0 = 0"
  by (simp add: fl_def)

lemma round_half_even_zero: "round_half_even 0 = 0"
  by (simp add: round_half_even_def)

lemma length_filter_disj:
  "(\<And>x. x \<in> set xs \<Longrightarrow> \<not> (P x \<and> Q x)) \<Longrightarrow>
   length (filter (\<lambda>x. P x \<or> Q x) xs) = length (filter P xs) + length (filter Q xs)"
  by (induction xs) auto

lemma sum_per_key:
  "distinct ks \<Longrightarrow>
   sum_list (map (\<lambda>u. int (length (filter (\<lambda>t. f t = u) xs))) ks) =
   int (length (filter (\<lambda>t. f t \<in> set ks) xs))"
proof (induction ks)
  case Nil
  show ?case by simp
next
  case (Cons k ks)
  have "length (filter (\<lambda>t. f t = k \<or> f t \<in> set ks) xs) =
        length (filter (\<lambda>t. f t = k) xs) + length (filter (\<lambda>t. f t \<in> set ks) xs)"
    using Cons.prems by (intro length_filter_disj) auto
  with Cons show ?case by simp
qed

lemma tally_task_unregistered:
  "map_of stats (username t) = None \<Longrightarrow> tally_task now stats t = Inr stats"
  by (simp add: tally_task_def)

lemma tally_task_registered:
  "map_of stats (username t) = Some c \<Longrightarrow>
   tally_task now stats t = Inr (AList.update (username t) (bump now t c) stats)"
  using is_overdue_Inr [of now "due_date t"]
  by (cases "is_overdue now (due_date t) = Inr True") (auto simp: tally_task_def bump_def)

lemma example_users_dict: "is_dict example_users"
  by code_simp

lemma example_user_stats:
  "calculate_user_stats (\<lambda>i. example_now) example_tasks example_users =
     Inr \<lparr>ur_total_users = 3, ur_total_tasks = 4,
          ur_user_stats =
            [(''alice'', \<lparr>us_tasks = 2, us_completed = 1, us_overdue = 1,
                us_percent_total = PyFloat 50, us_percent_completed = PyFloat 50,
                us_percent_incomplete = PyFloat 50, us_percent_overdue = PyFloat 50\<rparr>),
             (''bob'', \<lparr>us_tasks = 1, us_completed = 0, us_overdue = 0,
                us_percent_total = PyFloat 25, us_percent_completed = PyFloat 0,
                us_percent_incomplete = PyFloat 100, us_percent_overdue = PyFloat 0\<rparr>),
             (''admin'', \<lparr>us_tasks = 0, us_completed = 0, us_overdue = 0,
                us_percent_total = PyFloat 0, us_percent_completed = PyInt 0,
                us_percent_incomplete = PyInt 0, us_percent_overdue = PyInt 0\<rparr>)]\<rparr>"
  by code_simp

text \<open>
  C5. One pass of the loop of \<open>calculate_user_stats\<close> over a task: when the task's
  username is not a key of the statistics nothing changes; when it is, that user's
  tasks count is incremented, then completed is incremented if the flag equals
  \<open>"Yes"\<close>, else overdue is incremented if the task is overdue. So a task never
  increments both, a completed task that is past due increments only completed, and a
  task that is neither completed nor overdue increments neither. Over the whole
  collection, the counters of a registered user are the numbers of the user's tasks, of
  those with flag \<open>"Yes"\<close>, and of those with another flag that are overdue.
\<close>

theorem tally_task_increments:
  "(map_of stats (username t) = None \<longrightarrow> tally_task now stats t = Inr stats) \<and>
   (\<forall>c. map_of stats (username t) = Some c \<longrightarrow>
      (\<exists>c'. tally_task now stats t = Inr (AList.update (username t) c' stats) \<and>
         uc_tasks c' = uc_tasks c + 1 \<and>
         (completed t = ''Yes'' \<longrightarrow>
            uc_completed c' = uc_completed c + 1 \<and> uc_overdue c' = uc_overdue c) \<and>
         (completed t \<noteq> ''Yes'' \<and> is_overdue now (due_date t) = Inr True \<longrightarrow>
            uc_completed c' = uc_completed c \<and> uc_overdue c' = uc_overdue c + 1) \<and>
         (completed t \<noteq> ''Yes'' \<and> is_overdue now (due_date t) = Inr False \<longrightarrow>
            uc_completed c' = uc_completed c \<and> uc_overdue c' = uc_overdue c))) \<and>
   (is_dict users \<longrightarrow>
      (\<exists>r. calculate_user_stats clock tasks users = Inr r \<and>
         (\<forall>u st. (u, st) \<in> set (ur_user_stats r) \<longrightarrow>
            us_tasks st = int (length (filter (\<lambda>t. username t = u) tasks)) \<and>
            us_completed st =
              int (length (filter (\<lambda>t. username t = u \<and> completed t = ''Yes'') tasks)) \<and>
            us_overdue st =
              int (length (filter (\<lambda>(i, t). username t = u \<and> completed t \<noteq> ''Yes'' \<and>
                                       is_overdue (clock i) (due_date t) = Inr True)
                             (enumerate 0 tasks))))))"
proof (intro conjI allI impI)
  assume "map_of stats (username t) = None"
  then show "tally_task now stats t = Inr stats" by (rule tally_task_unregistered)
next
  fix c
  assume "map_of stats (username t) = Some c"
  then have "tally_task now stats t = Inr (AList.update (username t) (bump now t c) stats)"
    by (rule tally_task_registered)
  then show "\<exists>c'. tally_task now stats t = Inr (AList.update (username t) c' stats) \<and>
         uc_tasks c' = uc_tasks c + 1 \<and>
         (completed t = ''Yes'' \<longrightarrow>
            uc_completed c' = uc_completed c + 1 \<and> uc_overdue c' = uc_overdue c) \<and>
         (completed t \<noteq> ''Yes'' \<and> is_overdue now (due_date t) = Inr True \<longrightarrow>
            uc_completed c' = uc_completed c \<and> uc_overdue c' = uc_overdue c + 1) \<and>
         (completed t \<noteq> ''Yes'' \<and> is_overdue now (due_date t) = Inr False \<longrightarrow>
            uc_completed c' = uc_completed c \<and> uc_overdue c' = uc_overdue c)"
    by (intro exI [of _ "bump now t c"]) (simp add: bump_def)
next
  assume "is_dict users"
  then show "\<exists>r. calculate_user_stats clock tasks users = Inr r \<and>
         (\<forall>u st. (u, st) \<in> set (ur_user_stats r) \<longrightarrow>
            us_tasks st = int (length (filter (\<lambda>t. username t = u) tasks)) \<and>
            us_completed st =
              int (length (filter (\<lambda>t. username t = u \<and> completed t = ''Yes'') tasks)) \<and>
            us_overdue st =
              int (length (filter (\<lambda>(i, t). username t = u \<and> completed t \<noteq> ''Yes'' \<and>
                                       is_overdue (clock i) (due_date t) = Inr True)
                             (enumerate 0 tasks))))"
    by (auto simp: calculate_user_stats_Inr with_percentages_def user_tally_def)
qed

theorem tally_task_increments_witness:
  "map_of [(''alice'', zero_counts)] (username (example_task ''alice'' ''Yes'' ''2024-01-10''))
     = Some zero_counts \<and>
   completed (example_task ''alice'' ''Yes'' ''2024-01-10'') = ''Yes'' \<and>
   is_overdue example_now (due_date (example_task ''alice'' ''Yes'' ''2024-01-10'')) = Inr True \<and>
   (\<exists>c'. tally_task example_now [(''alice'', zero_counts)]
            (example_task ''alice'' ''Yes'' ''2024-01-10'') = Inr [(''alice'', c')] \<and>
         uc_tasks c' = 1 \<and> uc_completed c' = 1 \<and> uc_overdue c' = 0) \<and>
   map_of [(''alice'', zero_counts)] (username (example_task ''carol'' ''No'' ''2024-01-10''))
     = None \<and>
   tally_task example_now [(''alice'', zero_counts)] (example_task ''carol'' ''No'' ''2024-01-10'')
     = Inr [(''alice'', zero_counts)] \<and>
   is_dict example_users \<and>
   (\<exists>r. calculate_user_stats (\<lambda>i. example_now) example_tasks example_users = Inr r \<and>
        map (\<lambda>(u, st). (u, us_tasks st, us_completed st, us_overdue st)) (ur_user_stats r) =
          [(''alice'', 2, 1, 1), (''bob'', 1, 0, 0), (''admin'', 0, 0, 0)])"
proof -
  let ?t = "example_task ''alice'' ''Yes'' ''2024-01-10''"
  let ?t2 = "example_task ''carol'' ''No'' ''2024-01-10''"
  let ?st = "[(''alice'', zero_counts)]"
  have u: "username ?t = ''alice''" by code_simp
  have a: "map_of ?st (username ?t) = Some zero_counts" by (simp add: u)
  have b: "completed ?t = ''Yes''" by code_simp
  have c: "is_overdue example_now (due_date ?t) = Inr True" by code_simp
  have d: "map_of ?st (username ?t2) = None" by code_simp
  have z: "uc_tasks zero_counts = 0 \<and> uc_completed zero_counts = 0 \<and> uc_overdue zero_counts = 0"
    by (simp add: zero_counts_def)
  show ?thesis
    using tally_task_increments [of ?st ?t example_now example_users "\<lambda>i. example_now" example_tasks]
      tally_task_increments [of ?st ?t2 example_now example_users "\<lambda>i. example_now" example_tasks]
      a b c d z u example_users_dict example_user_stats
    by auto
qed

text \<open>
  C6. For every task collection and every dict of users, \<open>calculate_user_stats\<close> returns
  one record per registered username, in the order of the users; the record of a user
  without tasks is zeroed; total_tasks counts every task, while the per-user task counts
  add up to the number of tasks whose username is registered: a task of an unknown
  username is counted in no per-user record.
\<close>

theorem calculate_user_stats_records:
  "is_dict users \<Longrightarrow>
   \<exists>r. calculate_user_stats clock tasks users = Inr r \<and>
       map fst (ur_user_stats r) = map fst users \<and>
       ur_total_users r = int (length users) \<and>
       ur_total_tasks r = int (length tasks) \<and>
       (\<forall>u st. (u, st) \<in> set (ur_user_stats r) \<longrightarrow>
          us_tasks st = int (length (filter (\<lambda>t. username t = u) tasks)) \<and>
          (u \<notin> username ` set tasks \<longrightarrow>
             us_tasks st = 0 \<and> us_completed st = 0 \<and> us_overdue st = 0 \<and>
             num_val (us_percent_total st) = 0 \<and> us_percent_completed st = PyInt 0 \<and>
             us_percent_incomplete st = PyInt 0 \<and> us_percent_overdue st = PyInt 0)) \<and>
       sum_list (map (\<lambda>(u, st). us_tasks st) (ur_user_stats r)) =
         int (length (filter (\<lambda>t. username t \<in> fst ` set users) tasks))"
proof -
  assume d: "is_dict users"
  let ?n = "int (length tasks)"
  let ?r = "\<lparr>ur_total_users = int (length users), ur_total_tasks = ?n,
          ur_user_stats =
            map (\<lambda>(u, p). (u, with_percentages ?n (user_tally clock tasks u))) users\<rparr>"
  have r: "calculate_user_stats clock tasks users = Inr ?r"
    by (rule calculate_user_stats_Inr [OF d])
  have keys: "map fst (ur_user_stats ?r) = map fst users"
    by (simp add: comp_def case_prod_unfold)
  have none: "filter (\<lambda>t. username t = u \<and> P t) tasks = []
      \<and> filter (\<lambda>t. username t = u) tasks = []
      \<and> filter (\<lambda>(i, t). username t = u \<and> Q i t) (enumerate k tasks) = []"
    if "u \<notin> username ` set tasks" for u P Q k
    using that by (auto simp: filter_empty_conv in_set_enumerate_eq)
  have recs: "us_tasks st = int (length (filter (\<lambda>t. username t = u) tasks)) \<and>
          (u \<notin> username ` set tasks \<longrightarrow>
             us_tasks st = 0 \<and> us_completed st = 0 \<and> us_overdue st = 0 \<and>
             num_val (us_percent_total st) = 0 \<and> us_percent_completed st = PyInt 0 \<and>
             us_percent_incomplete st = PyInt 0 \<and> us_percent_overdue st = PyInt 0)"
    if "(u, st) \<in> set (ur_user_stats ?r)" for u st
  proof -
    from that have st: "st = with_percentages ?n (user_tally clock tasks u)" by auto
    show ?thesis
      unfolding st
      by (auto simp: with_percentages_def user_tally_def none float_mul_int_def fl_zero
          round_half_even_zero)
  qed
  have "sum_list (map (\<lambda>(u, st). us_tasks st) (ur_user_stats ?r)) =
        sum_list (map (\<lambda>u. int (length (filter (\<lambda>t. username t = u) tasks))) (map fst users))"
    by (simp add: comp_def case_prod_unfold with_percentages_def user_tally_def)
  also have "\<dots> = int (length (filter (\<lambda>t. username t \<in> set (map fst users)) tasks))"
    using d unfolding is_dict_def by (rule sum_per_key)
  finally have total: "sum_list (map (\<lambda>(u, st). us_tasks st) (ur_user_stats ?r)) =
         int (length (filter (\<lambda>t. username t \<in> fst ` set users) tasks))"
    by simp
  have tu: "ur_total_users ?r = int (length users)" by simp
  have tt: "ur_total_tasks ?r = int (length tasks)" by simp
  show ?thesis
    by (rule exI [of _ ?r]) (use r keys tu tt recs total in blast)
qed

theorem calculate_user_stats_records_witness:
  "is_dict example_users \<and>
   (\<exists>r. calculate_user_stats (\<lambda>i. example_now) example_tasks example_users = Inr r \<and>
        map fst (ur_user_stats r) = [''alice'', ''bob'', ''admin''] \<and>
        ur_total_users r = 3 \<and> ur_total_tasks r = 4 \<and>
        (\<exists>st. (''admin'', st) \<in> set (ur_user_stats r) \<and>
           us_tasks st = 0 \<and> us_completed st = 0 \<and> us_overdue st = 0 \<and>
           num_val (us_percent_total st) = 0 \<and> us_percent_completed st = PyInt 0) \<and>
        sum_list (map (\<lambda>(u, st). us_tasks st) (ur_user_stats r)) = 3)"
  using calculate_user_stats_records [OF example_users_dict, of "\<lambda>i. example_now" example_tasks]
    example_users_dict example_user_stats
  by auto

text \<open>
  C9. Every per-user record returned by \<open>calculate_user_stats\<close> satisfies
  completed + overdue <= tasks, hence overdue <= tasks - completed, the number of the
  user's incomplete tasks.
\<close>

theorem completed_plus_overdue_le_tasks:
  "is_dict users \<Longrightarrow>
   \<exists>r. calculate_user_stats clock tasks users = Inr r \<and>
       (\<forall>u st. (u, st) \<in> set (ur_user_stats r) \<longrightarrow>
          0 \<le> us_completed st \<and> 0 \<le> us_overdue st \<and>
          us_completed st + us_overdue st \<le> us_tasks st \<and>
          us_overdue st \<le> us_tasks st - us_completed st)"
proof -
  assume d: "is_dict users"
  have a: "length (filter (\<lambda>t. username t = u \<and> completed t = ''Yes'') tasks) +
        length (filter (\<lambda>(i, t). username t = u \<and> completed t \<noteq> ''Yes'' \<and>
                   is_overdue (clock i) (due_date t) = Inr True) (enumerate 0 tasks))
        \<le> length (filter (\<lambda>t. username t = u) tasks)" for u
  proof -
    let ?P = "\<lambda>(i::nat, t). username t = u \<and> completed t = ''Yes''"
    let ?Q = "\<lambda>(i, t). username t = u \<and> completed t \<noteq> ''Yes'' \<and>
                   is_overdue (clock i) (due_date t) = Inr True"
    have "length (filter ?P (enumerate 0 tasks)) + length (filter ?Q (enumerate 0 tasks))
        = length (filter (\<lambda>p. ?P p \<or> ?Q p) (enumerate 0 tasks))"
      by (rule length_filter_disj [symmetric]) auto
    also have "\<dots> \<le> length (filter (\<lambda>(i, t). username t = u) (enumerate 0 tasks))"
      by (rule length_filter_mono) auto
    finally show ?thesis by (simp add: length_filter_enumerate)
  qed
  have b: "int (length (filter (\<lambda>t. username t = u \<and> completed t = ''Yes'') tasks)) +
        int (length (filter (\<lambda>(i, t). username t = u \<and> completed t \<noteq> ''Yes'' \<and>
                   is_overdue (clock i) (due_date t) = Inr True) (enumerate 0 tasks)))
        \<le> int (length (filter (\<lambda>t. username t = u) tasks))" for u
    using a [of u] by linarith
  have c: "int (length (filter (\<lambda>(i, t). username t = u \<and> completed t \<noteq> ''Yes'' \<and>
                   is_overdue (clock i) (due_date t) = Inr True) (enumerate 0 tasks)))
        \<le> int (length (filter (\<lambda>t. username t = u) tasks)) -
          int (length (filter (\<lambda>t. username t = u \<and> completed t = ''Yes'') tasks))" for u
    using b [of u] by linarith
  show ?thesis
    unfolding calculate_user_stats_Inr [OF d]
    using b c by (auto simp: with_percentages_def user_tally_def)
qed

theorem completed_plus_overdue_le_tasks_witness:
  "is_dict example_users \<and>
   (\<exists>r. calculate_user_stats (\<lambda>i. example_now) example_tasks example_users = Inr r \<and>
      (\<exists>st. (''alice'', st) \<in> set (ur_user_stats r) \<and>
         us_completed st = 1 \<and> us_overdue st = 1 \<and> us_tasks st = 2 \<and>
         us_completed st + us_overdue st \<le> us_tasks st))"
  using completed_plus_overdue_le_tasks [OF example_users_dict, of "\<lambda>i. example_now" example_tasks]
    example_users_dict example_user_stats
  by auto

section \<open>Rounding errors of the percentages\<close>

text \<open>
  The error of one rounding to binary64 is at most half the spacing of the floats at
  the magnitude of the argument.
\<close>

lemma fl_examples:
  "fl (1 / 10) = 3602879701896397 / 36028797018963968 \<and>
   fl (1 / 3) = 6004799503160661 / 18014398509481984 \<and> fl 100 = 100"
  by code_simp

lemma round_half_even_error: "\<bar>of_int (round_half_even y) - y\<bar> \<le> 1 / 2"
proof -
  have "of_int \<lfloor>y\<rfloor> \<le> y" "y < of_int \<lfloor>y\<rfloor> + 1" by linarith+
  then show ?thesis
    by (auto simp: round_half_even_def Let_def)
qed

lemma powi_less_cancel: "(2::rat) powi m < 2 powi k \<Longrightarrow> m < k"
  using power_int_increasing [of k m "2::rat"] by (cases "m < k") auto

lemma ilog2_less:
  assumes "0 < x" and "x < 2 powi k"
  shows "ilog2 x < k"
proof -
  obtain p q where pq: "quotient_of x = (p, q)" by (cases "quotient_of x")
  then have q: "0 < q" by (rule quotient_of_denom_pos)
  from pq have x: "x = of_int p / of_int q" by (rule quotient_of_div)
  with assms q have p: "0 < p" by (simp add: zero_less_divide_iff)
  let ?d = "bitlen p - bitlen q"
  show ?thesis
  proof (cases "(2::rat) powi ?d \<le> x")
    case True
    with assms have "(2::rat) powi ?d < 2 powi k" by simp
    then have "?d < k" by (rule powi_less_cancel)
    with True pq show ?thesis by (simp add: ilog2_def)
  next
    case False
    have bp: "1 \<le> bitlen p" using p by (auto simp: bitlen_alt_def)
    have bq: "1 \<le> bitlen q" using q by (auto simp: bitlen_alt_def)
    from bitlen_bounds [OF p] have "(2::int) ^ nat (bitlen p - 1) \<le> p" by simp
    then have "(of_int ((2::int) ^ nat (bitlen p - 1)) :: rat) \<le> of_int p"
      by (simp only: of_int_le_iff)
    then have lp: "(2::rat) powi (bitlen p - 1) \<le> of_int p"
      using bp by (simp add: power_int_def)
    from bitlen_bounds [OF q] have "q < (2::int) ^ nat (bitlen q)" by simp
    then have "(of_int q :: rat) < of_int ((2::int) ^ nat (bitlen q))"
      by (simp only: of_int_less_iff)
    then have uq: "(of_int q :: rat) < 2 powi (bitlen q)"
      using bq by (simp add: power_int_def)
    have "(2::rat) powi (?d - 1) = 2 powi (bitlen p - 1) / 2 powi (bitlen q)"
      by (simp add: power_int_diff)
    also have "\<dots> \<le> of_int p / 2 powi (bitlen q)"
      using lp by (simp add: divide_right_mono)
    also have "\<dots> \<le> of_int p / of_int q"
      using uq p q by (simp add: frac_le)
    finally have "(2::rat) powi (?d - 1) < 2 powi k" using assms x by simp
    then have "?d - 1 < k" by (rule powi_less_cancel)
    with False pq show ?thesis by (simp add: ilog2_def)
  qed
qed

lemma fl_error:
  assumes "\<bar>x\<bar> < 2 powi k" and "- 1021 \<le> k"
  shows "\<bar>fl x - x\<bar> \<le> 2 powi (k - 54)"
proof (cases "x = 0")
  case True
  then show ?thesis by (simp add: fl_def)
next
  case False
  define e where "e = max (ilog2 \<bar>x\<bar>) (- 1022)"
  define q :: rat where "q = 2 powi (e - 52)"
  have "ilog2 \<bar>x\<bar> < k" using False assms by (intro ilog2_less) auto
  with assms have e: "e \<le> k - 1" by (simp add: e_def)
  have q0: "0 < q" by (simp add: q_def)
  have "q \<le> 2 powi (k - 53)"
    unfolding q_def using e by (intro power_int_increasing) auto
  also have "\<dots> = 2 * 2 powi (k - 54)"
    using power_int_add [of "2::rat" 1 "k - 54"] by simp
  finally have qk: "q / 2 \<le> 2 powi (k - 54)" by simp
  have f: "fl x = of_int (round_half_even (x / q)) * q"
    using False by (simp add: fl_def e_def q_def Let_def)
  have "fl x - x = (of_int (round_half_even (x / q)) - x / q) * q"
    using q0 by (simp add: f left_diff_distrib)
  then have "\<bar>fl x - x\<bar> = \<bar>of_int (round_half_even (x / q)) - x / q\<bar> * \<bar>q\<bar>"
    by (simp only: abs_mult)
  also have "\<dots> = \<bar>of_int (round_half_even (x / q)) - x / q\<bar> * q"
    using q0 by simp
  also have "\<dots> \<le> 1 / 2 * q"
    using round_half_even_error [of "x / q"] q0 by (intro mult_right_mono) auto
  finally show ?thesis using qk by simp
qed

lemma fl_error_2: "\<bar>x\<bar> < 2 \<Longrightarrow> \<bar>fl x - x\<bar> \<le> 1 / 2 ^ 53"
  using fl_error [of x 1] by (simp add: power_int_minus_divide)

lemma fl_error_128: "\<bar>x\<bar> < 128 \<Longrightarrow> \<bar>fl x - x\<bar> \<le> 1 / 2 ^ 47"
  using fl_error [of x 7] by (simp add: power_int_minus_divide)

lemma fl_error_256: "\<bar>x\<bar> < 256 \<Longrightarrow> \<bar>fl x - x\<bar> \<le> 1 / 2 ^ 46"
  using fl_error [of x 8] by (simp add: power_int_minus_divide)

lemma rounded_percent_error:
  assumes "0 \<le> r" and "r \<le> 1"
  shows "\<bar>fl (of_int (round_half_even (float_mul_int (fl r) 100 * 100)) / 100) - 100 * r\<bar>
           \<le> 1 / 200 + 1 / 2 ^ 45"
proof -
  define x1 where "x1 = fl r"
  define x2 where "x2 = fl (x1 * 100)"
  define y :: rat where "y = of_int (round_half_even (x2 * 100)) / 100"
  have e1: "\<bar>x1 - r\<bar> \<le> 1 / 2 ^ 53"
    unfolding x1_def using assms by (intro fl_error_2) auto
  then have b1: "\<bar>x1 * 100\<bar> < 128" using assms by (simp add: abs_if split: if_splits)
  have e2: "\<bar>x2 - x1 * 100\<bar> \<le> 1 / 2 ^ 47"
    unfolding x2_def using b1 by (rule fl_error_128)
  have "\<bar>of_int (round_half_even (x2 * 100)) - x2 * 100\<bar> \<le> 1 / 2"
    by (rule round_half_even_error)
  then have e3: "\<bar>y - x2\<bar> \<le> 1 / 200"
    by (simp add: y_def abs_if field_simps split: if_splits)
  from e1 e2 e3 assms have b3: "\<bar>y\<bar> < 128"
    by (simp add: abs_if split: if_splits)
  have e4: "\<bar>fl y - y\<bar> \<le> 1 / 2 ^ 47" using b3 by (rule fl_error_128)
  have "\<bar>fl y - 100 * r\<bar> \<le> 1 / 200 + 1 / 2 ^ 45"
    using e1 e2 e3 e4 by (simp add: abs_if split: if_splits)
  then show ?thesis by (simp add: y_def x2_def x1_def float_mul_int_def)
qed

lemma rounded_sum_error:
  assumes "\<bar>a - 100 * r\<bar> \<le> 1 / 200 + 1 / 2 ^ 45"
    and "\<bar>b - 100 * (1 - r)\<bar> \<le> 1 / 200 + 1 / 2 ^ 45"
  shows "\<bar>float_add a b - 100\<bar> \<le> 1 / 100 + 1 / 10 ^ 12"
proof -
  from assms have s: "\<bar>a + b - 100\<bar> \<le> 1 / 100 + 1 / 2 ^ 44"
    by (simp add: abs_if split: if_splits)
  then have "\<bar>a + b\<bar> < 256" by (simp add: abs_if split: if_splits)
  then have "\<bar>fl (a + b) - (a + b)\<bar> \<le> 1 / 2 ^ 46" by (rule fl_error_256)
  with s show ?thesis by (simp add: float_add_def abs_if split: if_splits)
qed

lemma busy_tally:
  "user_tally example_clock busy_tasks ''alice'' =
     \<lparr>uc_tasks = 160, uc_completed = 23, uc_overdue = 0\<rparr>"
proof -
  let ?a = "example_task ''alice'' ''Yes'' ''2024-01-10''"
  let ?b = "example_task ''alice'' ''No'' ''2025-01-10''"
  have a: "username ?a = ''alice'' \<and> completed ?a = ''Yes''" by code_simp
  have b: "username ?b = ''alice'' \<and> completed ?b \<noteq> ''Yes'' \<and>
           is_overdue example_now (due_date ?b) \<noteq> Inr True" by code_simp
  have o: "length (filter (\<lambda>(i, t). username t = ''alice'' \<and> completed t \<noteq> ''Yes'' \<and>
              is_overdue example_now (due_date t) = Inr True) (enumerate 0 busy_tasks))
        = length (filter (\<lambda>t. username t = ''alice'' \<and> completed t \<noteq> ''Yes'' \<and>
              is_overdue example_now (due_date t) = Inr True) busy_tasks)"
    by (rule length_filter_enumerate)
  show ?thesis
    unfolding user_tally_def example_clock_def o
    using a b by (simp add: busy_tasks_def)
qed

lemma busy_percentages:
  "with_percentages 160 \<lparr>uc_tasks = 160, uc_completed = 23, uc_overdue = 0\<rparr> =
     \<lparr>us_tasks = 160, us_completed = 23, us_overdue = 0,
      us_percent_total = PyFloat 100,
      us_percent_completed = PyFloat (8089590830664253 / 562949953421312),
      us_percent_incomplete = PyFloat (753121484561449 / 8796093022208),
      us_percent_overdue = PyFloat 0\<rparr>"
  by code_simp

lemma busy_sum:
  "float_add (8089590830664253 / 562949953421312) (753121484561449 / 8796093022208) =
     439760670645289 / 4398046511104 \<and>
   (439760670645289 / 4398046511104 :: rat) \<noteq> 100 \<and>
   fl (1437 / 100) = 8089590830664253 / 562949953421312 \<and>
   fl (8562 / 100) = 753121484561449 / 8796093022208"
  by code_simp

lemma user_tally_bounds:
  "0 \<le> uc_completed (user_tally clock tasks u) \<and>
   uc_completed (user_tally clock tasks u) \<le> uc_tasks (user_tally clock tasks u)"
proof -
  have "length (filter (\<lambda>t. username t = u \<and> completed t = ''Yes'') tasks)
      \<le> length (filter (\<lambda>t. username t = u) tasks)"
    by (rule length_filter_mono) auto
  then show ?thesis by (simp add: user_tally_def)
qed

lemma with_percentages_near_100:
  assumes "0 \<le> uc_completed c" and "uc_completed c \<le> uc_tasks c" and "0 < uc_tasks c"
  shows "\<exists>a b. us_percent_completed (with_percentages n c) = PyFloat a \<and>
           us_percent_incomplete (with_percentages n c) = PyFloat b \<and>
           \<bar>a - 100 * (of_int (uc_completed c) / of_int (uc_tasks c))\<bar>
             \<le> 1 / 200 + 1 / 10 ^ 12 \<and>
           \<bar>b - 100 * (of_int (uc_tasks c - uc_completed c) / of_int (uc_tasks c))\<bar>
             \<le> 1 / 200 + 1 / 10 ^ 12 \<and>
           \<bar>float_add a b - 100\<bar> \<le> 1 / 100 + 1 / 10 ^ 12"
proof -
  define r :: rat where "r = of_int (uc_completed c) / of_int (uc_tasks c)"
  define a where "a = fl (of_int (round_half_even (float_mul_int (fl r) 100 * 100)) / 100)"
  define b where "b = fl (of_int (round_half_even (float_mul_int (fl (1 - r)) 100 * 100)) / 100)"
  have r0: "0 \<le> r" and r1: "r \<le> 1"
    using assms by (simp_all add: r_def)
  have q: "(of_int (uc_tasks c - uc_completed c) :: rat) / of_int (uc_tasks c) = 1 - r"
    using assms by (simp add: r_def diff_divide_distrib)
  have ea: "\<bar>a - 100 * r\<bar> \<le> 1 / 200 + 1 / 2 ^ 45"
    unfolding a_def using r0 r1 by (rule rounded_percent_error)
  have eb: "\<bar>b - 100 * (1 - r)\<bar> \<le> 1 / 200 + 1 / 2 ^ 45"
    unfolding b_def using r0 r1 by (intro rounded_percent_error) auto
  have s: "\<bar>float_add a b - 100\<bar> \<le> 1 / 100 + 1 / 10 ^ 12"
    using ea eb by (rule rounded_sum_error)
  have pa: "us_percent_completed (with_percentages n c) = PyFloat a"
    using assms by (simp add: with_percentages_def a_def r_def)
  have q2: "(of_int (uc_tasks c) - of_int (uc_completed c) :: rat) / of_int (uc_tasks c) = 1 - r"
    using q by simp
  have pb: "us_percent_incomplete (with_percentages n c) = PyFloat b"
    using assms by (simp add: with_percentages_def b_def q2)
  have ea': "\<bar>a - 100 * r\<bar> \<le> 1 / 200 + 1 / 10 ^ 12" using ea by simp
  have eb': "\<bar>b - 100 * (1 - r)\<bar> \<le> 1 / 200 + 1 / 10 ^ 12" using eb by simp
  show ?thesis
    using pa pb ea' eb' s unfolding q r_def [symmetric] by blast
qed

text \<open>
  C7, as stated, fails: for a user with 160 tasks of which 23 are completed the exact
  percentages are 14.375 and 85.625. The float computed for the first lies just below
  14.375 and rounds to 14.37; the float computed for the second is 85.625 itself and
  rounds, ties to even, to 85.62. Their float sum is 99.99000000000001, not 100.
\<close>

theorem percentages_sum_counterexample:
  "is_dict [(''alice'', ''a1'')] \<and>
   calculate_user_stats example_clock busy_tasks [(''alice'', ''a1'')] =
     Inr \<lparr>ur_total_users = 1, ur_total_tasks = 160,
          ur_user_stats =
            [(''alice'', \<lparr>us_tasks = 160, us_completed = 23, us_overdue = 0,
                us_percent_total = PyFloat 100,
                us_percent_completed = PyFloat (8089590830664253 / 562949953421312),
                us_percent_incomplete = PyFloat (753121484561449 / 8796093022208),
                us_percent_overdue = PyFloat 0\<rparr>)]\<rparr> \<and>
   float_add (8089590830664253 / 562949953421312) (753121484561449 / 8796093022208) =
     439760670645289 / 4398046511104 \<and>
   float_add (8089590830664253 / 562949953421312) (753121484561449 / 8796093022208) \<noteq> 100 \<and>
   fl (1437 / 100) = 8089590830664253 / 562949953421312 \<and>
   fl (8562 / 100) = 753121484561449 / 8796093022208"
proof -
  have d: "is_dict [(''alice'', ''a1'')]" by (simp add: is_dict_def)
  have n: "int (length busy_tasks) = 160" by (simp add: busy_tasks_def)
  have "calculate_user_stats example_clock busy_tasks [(''alice'', ''a1'')] =
     Inr \<lparr>ur_total_users = 1, ur_total_tasks = 160,
          ur_user_stats =
            [(''alice'', with_percentages 160
                \<lparr>uc_tasks = 160, uc_completed = 23, uc_overdue = 0\<rparr>)]\<rparr>"
    unfolding calculate_user_stats_Inr [OF d] n by (simp add: busy_tally)
  with d busy_sum show ?thesis by (simp add: busy_percentages)
qed

text \<open>
  C7, amended. For every task collection and every dict of users, and for every user
  whose tasks count is greater than 0, percent_completed and percent_incomplete are
  floats that lie within 0.005 + 10^-12 of the exact percentages
  100 * completed / tasks and 100 * (tasks - completed) / tasks, and their float sum
  lies within 0.01 + 10^-12 of 100.
\<close>

theorem percent_completed_incomplete_near_100:
  "is_dict users \<Longrightarrow>
   \<exists>r. calculate_user_stats clock tasks users = Inr r \<and>
       (\<forall>u st. (u, st) \<in> set (ur_user_stats r) \<and> 0 < us_tasks st \<longrightarrow>
          (\<exists>a b. us_percent_completed st = PyFloat a \<and>
                 us_percent_incomplete st = PyFloat b \<and>
                 \<bar>a - 100 * (of_int (us_completed st) / of_int (us_tasks st))\<bar>
                   \<le> 1 / 200 + 1 / 10 ^ 12 \<and>
                 \<bar>b - 100 * (of_int (us_tasks st - us_completed st) / of_int (us_tasks st))\<bar>
                   \<le> 1 / 200 + 1 / 10 ^ 12 \<and>
                 \<bar>float_add a b - 100\<bar> \<le> 1 / 100 + 1 / 10 ^ 12))"
proof -
  assume d: "is_dict users"
  let ?n = "int (length tasks)"
  let ?r = "\<lparr>ur_total_users = int (length users), ur_total_tasks = ?n,
          ur_user_stats =
            map (\<lambda>(u, p). (u, with_percentages ?n (user_tally clock tasks u))) users\<rparr>"
  have r: "calculate_user_stats clock tasks users = Inr ?r"
    by (rule calculate_user_stats_Inr [OF d])
  have f: "us_tasks (with_percentages n c) = uc_tasks c"
    "us_completed (with_percentages n c) = uc_completed c" for n c
    by (simp_all add: with_percentages_def)
  have recs: "\<exists>a b. us_percent_completed st = PyFloat a \<and>
                 us_percent_incomplete st = PyFloat b \<and>
                 \<bar>a - 100 * (of_int (us_completed st) / of_int (us_tasks st))\<bar>
                   \<le> 1 / 200 + 1 / 10 ^ 12 \<and>
                 \<bar>b - 100 * (of_int (us_tasks st - us_completed st) / of_int (us_tasks st))\<bar>
                   \<le> 1 / 200 + 1 / 10 ^ 12 \<and>
                 \<bar>float_add a b - 100\<bar> \<le> 1 / 100 + 1 / 10 ^ 12"
    if "(u, st) \<in> set (ur_user_stats ?r) \<and> 0 < us_tasks st" for u st
  proof -
    from that have st: "st = with_percentages ?n (user_tally clock tasks u)" by auto
    from that have pos: "0 < uc_tasks (user_tally clock tasks u)" by (simp add: st f)
    show ?thesis
      unfolding st f
      using user_tally_bounds [of clock tasks u] pos
      by (intro with_percentages_near_100) auto
  qed
  show ?thesis
    by (rule exI [of _ ?r]) (use r recs in blast)
qed

lemma busy_sum_ne:
  "float_add (8089590830664253 / 562949953421312) (753121484561449 / 8796093022208) \<noteq> 100"
  by code_simp

theorem percent_completed_incomplete_near_100_witness:
  "is_dict [(''alice'', ''a1'')] \<and>
   (\<exists>r. calculate_user_stats example_clock busy_tasks [(''alice'', ''a1'')] = Inr r \<and>
      (\<exists>st a b. (''alice'', st) \<in> set (ur_user_stats r) \<and> 0 < us_tasks st \<and>
         us_percent_completed st = PyFloat a \<and> us_percent_incomplete st = PyFloat b \<and>
         \<bar>float_add a b - 100\<bar> \<le> 1 / 100 + 1 / 10 ^ 12 \<and> float_add a b \<noteq> 100))"
proof -
  let ?st = "with_percentages 160 \<lparr>uc_tasks = 160, uc_completed = 23, uc_overdue = 0\<rparr>"
  let ?a = "8089590830664253 / 562949953421312 :: rat"
  let ?b = "753121484561449 / 8796093022208 :: rat"
  have d: "is_dict [(''alice'', ''a1'')]" by (simp add: is_dict_def)
  have n: "int (length busy_tasks) = 160" by (simp add: busy_tasks_def)
  have c: "calculate_user_stats example_clock busy_tasks [(''alice'', ''a1'')] =
     Inr \<lparr>ur_total_users = 1, ur_total_tasks = 160, ur_user_stats = [(''alice'', ?st)]\<rparr>"
    unfolding calculate_user_stats_Inr [OF d] n by (simp add: busy_tally)
  from percent_completed_incomplete_near_100 [OF d, of example_clock busy_tasks]
  obtain r where r: "calculate_user_stats example_clock busy_tasks [(''alice'', ''a1'')] = Inr r"
    and near: "\<And>u st. (u, st) \<in> set (ur_user_stats r) \<and> 0 < us_tasks st \<Longrightarrow>
          \<exists>a b. us_percent_completed st = PyFloat a \<and>
                 us_percent_incomplete st = PyFloat b \<and>
                 \<bar>float_add a b - 100\<bar> \<le> 1 / 100 + 1 / 10 ^ 12"
    by blast
  from r c have mem: "(''alice'', ?st) \<in> set (ur_user_stats r)" by auto
  have pos: "0 < us_tasks ?st" by (simp add: busy_percentages)
  from near [of "''alice''" ?st] mem pos
  obtain a b where a: "us_percent_completed ?st = PyFloat a"
    and b: "us_percent_incomplete ?st = PyFloat b"
    and s: "\<bar>float_add a b - 100\<bar> \<le> 1 / 100 + 1 / 10 ^ 12"
    by blast
  have a': "a = ?a" using a by (simp add: busy_percentages)
  have b': "b = ?b" using b by (simp add: busy_percentages)
  have ne: "float_add a b \<noteq> 100" unfolding a' b' by (rule busy_sum_ne)
  from d r mem pos a b s ne show ?thesis by blast
qed

section \<open>The record store: properties\<close>

lemma split_single: "\<not> py_in '', '' f \<Longrightarrow> py_split '', '' f = [f]"
  by (induction f) auto

lemma split_field:
  "\<not> py_in '', '' f \<Longrightarrow> py_split '', '' (f @ '', '' @ rest) = f # py_split '', '' rest"
proof (induction f)
  case Nil
  show ?case by simp
next
  case (Cons c f)
  then have ih: "py_split '', '' (f @ '', '' @ rest) = f # py_split '', '' rest" by simp
  from Cons.prems have "take 2 (c # f @ '', '' @ rest) \<noteq> '', ''"
    by (cases f) (auto simp: take_Suc_conv_app_nth)
  then show ?case using ih by simp
qed

lemma split_task_fields:
  assumes "\<not> py_in '', '' a" "\<not> py_in '', '' b" "\<not> py_in '', '' c" "\<not> py_in '', '' d"
    "\<not> py_in '', '' e" "\<not> py_in '', '' f"
  shows "py_split '', '' (a @ '', '' @ b @ '', '' @ c @ '', '' @ d @ '', '' @ e @ '', '' @ f)
           = [a, b, c, d, e, f]"
  by (simp only: split_field [OF assms(1)] split_field [OF assms(2)] split_field [OF assms(3)]
      split_field [OF assms(4)] split_field [OF assms(5)] split_single [OF assms(6)])

lemma is_space_LF: "is_space LF"
  by (simp add: is_space_def LF_def)

lemma not_space_comma: "\<not> is_space (CHR '','')"
  by (simp add: is_space_def)

lemma LF_neq: "LF \<noteq> CHR '',''" "LF \<noteq> CHR '' ''" "CR \<noteq> CHR '',''" "CR \<noteq> CHR '' ''" "CR \<noteq> LF"
  by (simp_all add: LF_def CR_def)

lemma dropWhile_id: "xs = [] \<or> \<not> P (hd xs) \<Longrightarrow> dropWhile P xs = xs"
  by (cases xs) auto

lemma strip_body:
  assumes "body \<noteq> []" and "\<not> is_space (hd body)" and "\<not> is_space (last body)"
  shows "py_strip (body @ [LF]) = body"
proof -
  have a: "dropWhile is_space (body @ [LF]) = body @ [LF]"
    using assms(1,2) by (intro dropWhile_id) simp
  have "dropWhile is_space (rev (body @ [LF])) = dropWhile is_space (rev body)"
    by (simp add: is_space_LF)
  also have "\<dots> = rev body"
    using assms(1,3) by (intro dropWhile_id) (simp add: hd_rev)
  finally show ?thesis by (simp add: py_strip_def a)
qed

lemma lines_first:
  "LF \<notin> set body \<Longrightarrow> py_lines (body @ LF # rest) = (body @ [LF]) # py_lines rest"
  by (induction body) auto

lemma universal_newlines_id: "CR \<notin> set s \<Longrightarrow> universal_newlines s = s"
  by (induction s rule: universal_newlines.induct) auto

lemma task_line_body: "task_line t = task_body t @ [LF]"
  by (simp add: task_line_def task_body_def)

lemma body_no_breaks:
  "storable t \<Longrightarrow> LF \<notin> set (task_body t) \<and> CR \<notin> set (task_body t)"
  using LF_neq by (auto simp: storable_def plain_field_def task_body_def)

lemma lines_of_tasks:
  "\<forall>t \<in> set ts. storable t \<Longrightarrow> py_lines (concat (map task_line ts)) = map task_line ts"
proof (induction ts)
  case Nil
  show ?case by simp
next
  case (Cons t ts)
  then have ih: "py_lines (concat (map task_line ts)) = map task_line ts" by simp
  from Cons.prems have nl: "LF \<notin> set (task_body t)" by (simp add: body_no_breaks)
  have "concat (map task_line (t # ts)) = task_body t @ LF # concat (map task_line ts)"
    by (simp add: task_line_body [of t])
  then have "py_lines (concat (map task_line (t # ts)))
      = (task_body t @ [LF]) # py_lines (concat (map task_line ts))"
    by (simp only: lines_first [OF nl])
  then show ?case by (simp only: ih task_line_body [of t] list.map)
qed

lemma no_CR_in_tasks:
  "\<forall>t \<in> set ts. storable t \<Longrightarrow> CR \<notin> set (concat (map task_line ts))"
  using LF_neq(5) by (auto simp: task_line_body dest: body_no_breaks)

lemma body_ends:
  assumes "storable t"
  shows "task_body t \<noteq> [] \<and> \<not> is_space (hd (task_body t)) \<and> \<not> is_space (last (task_body t))"
proof -
  from assms have u: "username t = [] \<or> \<not> is_space (hd (username t))"
    and c: "completed t \<noteq> []" "\<not> is_space (last (completed t))"
    by (simp_all add: storable_def)
  have h: "\<not> is_space (hd (task_body t))"
    using u by (cases "username t") (auto simp: task_body_def not_space_comma)
  define pre where "pre = username t @ '', '' @ title t @ '', '' @ description t @ '', '' @
     assigned_date t @ '', '' @ due_date t @ '', ''"
  have b: "task_body t = pre @ completed t"
    by (simp add: task_body_def pre_def)
  have l: "last (task_body t) = last (completed t)"
    unfolding b by (rule last_appendR [OF c(1)])
  have n: "task_body t \<noteq> []" unfolding b using c(1) by simp
  from h l n c(2) show ?thesis by simp
qed

lemma load_storable_line:
  assumes "storable t"
  shows "load_task_line (acc, w) (task_line t) = (acc @ [t], w)"
proof -
  have s: "py_strip (task_line t) = task_body t"
    unfolding task_line_body using body_ends [OF assms] by (intro strip_body) simp_all
  have p: "py_split '', '' (task_body t)
      = [username t, title t, description t, assigned_date t, due_date t, completed t]"
    unfolding task_body_def
    using assms by (intro split_task_fields) (simp_all add: storable_def plain_field_def)
  show ?thesis
    unfolding load_task_line_def s p by (simp add: Let_def)
qed

lemma load_storable_lines:
  "\<forall>t \<in> set ts. storable t \<Longrightarrow>
   foldl load_task_line (acc, w) (map task_line ts) = (acc @ ts, w)"
  by (induction ts arbitrary: acc) (simp_all add: load_storable_line)

lemma file_write_present:
  "files w p = Some old \<Longrightarrow> file_write p c w = w\<lparr>files := (files w)(p \<mapsto> old @ c)\<rparr>"
  by (simp add: file_write_def)

lemma write_chunks_ok:
  "write_fault w p = None \<Longrightarrow> files w p = Some old \<Longrightarrow>
   write_chunks p k chunks w = (Inr (), w\<lparr>files := (files w)(p \<mapsto> old @ concat chunks)\<rparr>)"
proof (induction chunks arbitrary: w old k)
  case Nil
  then have "(files w)(p \<mapsto> old) = files w" by (simp add: fun_upd_idem)
  with Nil show ?case by simp
next
  case (Cons c chunks)
  let ?w = "w\<lparr>files := (files w)(p \<mapsto> old @ c)\<rparr>"
  have w: "file_write p c w = ?w" by (rule file_write_present [OF Cons.prems(2)])
  have n: "write_fault ?w p = None" using Cons.prems(1) by simp
  have f: "files ?w p = Some (old @ c)" by simp
  have "write_chunks p k (c # chunks) w = write_chunks p (Suc k) chunks ?w"
    using Cons.prems(1) by (simp add: w)
  also have "\<dots> = (Inr (), ?w\<lparr>files := (files ?w)(p \<mapsto> (old @ c) @ concat chunks)\<rparr>)"
    by (rule Cons.IH [OF n f])
  also have "\<dots> = (Inr (), w\<lparr>files := (files w)(p \<mapsto> old @ concat (c # chunks))\<rparr>)"
    by (simp add: fun_upd_upd)
  finally show ?case .
qed

lemma write_file_ok:
  assumes "p \<notin> unwritable w"
  shows "write_file p chunks w =
     (Inr (), w\<lparr>files := (files w)(p \<mapsto> concat chunks), trace := trace w @ [OpenWrite p]\<rparr>)"
proof -
  let ?w1 = "w\<lparr>trace := trace w @ [OpenWrite p], files := (files w)(p \<mapsto> [])\<rparr>"
  from assms have n: "write_fault w p = None" by (simp add: unwritable_def)
  have o: "open_w p w = (Inr (), ?w1)"
    using n by (simp add: open_w_def Let_def log_event_def)
  have n1: "write_fault ?w1 p = None" using n by simp
  have f: "files ?w1 p = Some []" by simp
  have "write_chunks p 1 chunks ?w1 =
        (Inr (), ?w1\<lparr>files := (files ?w1)(p \<mapsto> [] @ concat chunks)\<rparr>)"
    by (rule write_chunks_ok [OF n1 f])
  also have "\<dots> =
      (Inr (), w\<lparr>files := (files w)(p \<mapsto> concat chunks), trace := trace w @ [OpenWrite p]\<rparr>)"
    by (simp add: fun_upd_upd)
  finally show ?thesis
    by (simp add: write_file_def o)
qed

lemma load_tasks_present:
  assumes "files w ''tasks.txt'' = Some (concat (map task_line ts))"
    and "\<forall>t \<in> set ts. storable t"
  shows "load_tasks w = (Inr ts, log_event (OpenRead ''tasks.txt'') w)"
proof -
  have u: "universal_newlines (concat (map task_line ts)) = concat (map task_line ts)"
    using assms(2) by (intro universal_newlines_id no_CR_in_tasks)
  show ?thesis
    using assms
    by (simp add: load_tasks_def open_r_def Let_def u lines_of_tasks load_storable_lines)
qed

text \<open>
  C8, as stated, fails: a field can be free of the delimiter and still be changed by
  the round trip. A username that begins with a space comes back without the space,
  and a task whose completion flag is empty is written as a line that ends with the
  delimiter; the line is stripped, splits into five parts and is skipped.
\<close>

theorem round_trip_counterexample:
  "\<not> py_in '', '' (username spaced_task) \<and> \<not> py_in '', '' (title spaced_task) \<and>
   \<not> py_in '', '' (description spaced_task) \<and> \<not> py_in '', '' (assigned_date spaced_task) \<and>
   \<not> py_in '', '' (due_date spaced_task) \<and> \<not> py_in '', '' (completed spaced_task) \<and>
   fst (save_tasks [spaced_task] empty_world) = Inr () \<and>
   fst (load_tasks (snd (save_tasks [spaced_task] empty_world))) =
     Inr [example_task ''bob'' ''No'' ''2025-01-10''] \<and>
   example_task ''bob'' ''No'' ''2025-01-10'' \<noteq> spaced_task \<and>
   \<not> py_in '', '' (username unflagged_task) \<and> \<not> py_in '', '' (title unflagged_task) \<and>
   \<not> py_in '', '' (description unflagged_task) \<and> \<not> py_in '', '' (assigned_date unflagged_task) \<and>
   \<not> py_in '', '' (due_date unflagged_task) \<and> \<not> py_in '', '' (completed unflagged_task) \<and>
   fst (save_tasks [unflagged_task] empty_world) = Inr () \<and>
   fst (load_tasks (snd (save_tasks [unflagged_task] empty_world))) = Inr []"
  by code_simp

text \<open>
  C8, amended. For every collection of storable tasks (no field contains the delimiter
  or a line break, the username does not begin with white space, the completion flag
  is not empty and does not end with white space), when \<open>tasks.txt\<close> can be opened
  for writing, \<open>save_tasks\<close> followed by \<open>load_tasks\<close> returns the same collection,
  field for field, and prints no warning.
\<close>

theorem save_load_round_trip:
  "''tasks.txt'' \<notin> unwritable w \<Longrightarrow> \<forall>t \<in> set tasks. storable t \<Longrightarrow>
   \<exists>w1. save_tasks tasks w = (Inr (), w1) \<and>
        load_tasks w1 = (Inr tasks, log_event (OpenRead ''tasks.txt'') w1)"
proof -
  assume a: "''tasks.txt'' \<notin> unwritable w" and s: "\<forall>t \<in> set tasks. storable t"
  let ?w1 = "w\<lparr>files := (files w)(''tasks.txt'' \<mapsto> concat (map task_line tasks)),
               trace := trace w @ [OpenWrite ''tasks.txt'']\<rparr>"
  have 1: "save_tasks tasks w = (Inr (), ?w1)"
    unfolding save_tasks_def by (rule write_file_ok [OF a])
  have "files ?w1 ''tasks.txt'' = Some (concat (map task_line tasks))" by simp
  then have 2: "load_tasks ?w1 = (Inr tasks, log_event (OpenRead ''tasks.txt'') ?w1)"
    using s by (rule load_tasks_present)
  from 1 2 show ?thesis by blast
qed

theorem save_load_round_trip_witness:
  "''tasks.txt'' \<notin> unwritable empty_world \<and>
   list_all storable example_tasks \<and>
   fst (save_tasks example_tasks empty_world) = Inr () \<and>
   fst (load_tasks (snd (save_tasks example_tasks empty_world))) = Inr example_tasks"
proof -
  have a: "''tasks.txt'' \<notin> unwritable empty_world"
    by (simp add: empty_world_def unwritable_def)
  have s: "list_all storable example_tasks" by code_simp
  then have s': "\<forall>t \<in> set example_tasks. storable t" by (simp add: list_all_iff)
  from save_load_round_trip [OF a s'] a s show ?thesis by auto
qed

section \<open>The report writer: properties\<close>

lemma load_user_line_dict:
  "is_dict (fst st) \<Longrightarrow> is_dict (fst (load_user_line st line))"
  by (simp add: load_user_line_def Let_def is_dict_def distinct_update)

lemma load_user_lines_dict:
  "is_dict (fst st) \<Longrightarrow> is_dict (fst (foldl load_user_line st ls))"
  by (induction ls arbitrary: st) (simp_all add: load_user_line_dict)

lemma load_users_dict:
  assumes "load_users w = (Inr users, w')"
  shows "is_dict users"
proof (cases "files w ''user.txt''")
  case None
  with assms have "users = AList.update ''admin'' ''adm1n'' []"
    by (simp add: load_users_def open_r_def Let_def split: prod.splits sum.splits)
  then show ?thesis by (simp add: is_dict_def)
next
  case (Some content)
  have "is_dict (fst (foldl load_user_line ([], log_event (OpenRead ''user.txt'') w)
      (py_lines (universal_newlines content))))"
    by (rule load_user_lines_dict) (simp add: is_dict_def)
  with assms Some show ?thesis
    by (auto simp: load_users_def open_r_def Let_def)
qed

lemma write_chunks_world:
  "write_chunks p k chunks w = (r, w') \<Longrightarrow>
   trace w' = trace w \<and> write_fault w' = write_fault w \<and>
   (\<forall>q. q \<noteq> p \<longrightarrow> files w' q = files w q) \<and>
   (\<forall>e. r = Inl e \<longrightarrow> e = OSError)"
proof (induction chunks arbitrary: k w)
  case Nil
  then show ?case by (auto split: if_splits)
next
  case (Cons c chunks)
  show ?case
  proof (cases "write_fault w p = Some k")
    case True
    with Cons.prems show ?thesis by auto
  next
    case False
    with Cons.prems have "write_chunks p (Suc k) chunks (file_write p c w) = (r, w')" by simp
    from Cons.IH [OF this] show ?thesis by (simp add: file_write_def)
  qed
qed

lemma write_chunks_written:
  "write_chunks p k chunks w = (Inr (), w') \<Longrightarrow> files w p = Some old \<Longrightarrow>
   files w' p = Some (old @ concat chunks)"
proof (induction chunks arbitrary: k w old)
  case Nil
  then show ?case by (auto split: if_splits)
next
  case (Cons c chunks)
  from Cons.prems(1) have n: "write_fault w p \<noteq> Some k" by (auto split: if_splits)
  with Cons.prems(1) have s: "write_chunks p (Suc k) chunks (file_write p c w) = (Inr (), w')"
    by simp
  have "files (file_write p c w) p = Some (old @ c)"
    using Cons.prems(2) by (simp add: file_write_def)
  from Cons.IH [OF s this] show ?case by simp
qed

lemma write_chunks_fails_iff:
  "(\<exists>e. fst (write_chunks p k chunks w) = Inl e) \<longleftrightarrow>
   (\<exists>j. write_fault w p = Some j \<and> k \<le> j \<and> j \<le> k + length chunks)"
proof (induction chunks arbitrary: k w)
  case Nil
  show ?case by auto
next
  case (Cons c chunks)
  have f: "write_fault (file_write p c w) p = write_fault w p" by (simp add: file_write_def)
  show ?case
  proof (cases "write_fault w p = Some k")
    case True
    then show ?thesis by auto
  next
    case False
    then have "(\<exists>e. fst (write_chunks p k (c # chunks) w) = Inl e) \<longleftrightarrow>
        (\<exists>j. write_fault w p = Some j \<and> Suc k \<le> j \<and> j \<le> Suc k + length chunks)"
      using Cons.IH [of "Suc k" "file_write p c w"] by (simp add: f)
    also have "\<dots> \<longleftrightarrow> (\<exists>j. write_fault w p = Some j \<and> k \<le> j \<and> j \<le> k + length (c # chunks))"
      using False by (auto simp: Suc_le_eq le_less)
    finally show ?thesis .
  qed
qed

lemma write_file_fails_iff:
  "(\<exists>e. fst (write_file p chunks w) = Inl e) \<longleftrightarrow>
   (\<exists>k. write_fault w p = Some k \<and> k \<le> Suc (length chunks))"
proof (cases "write_fault w p = Some 0")
  case True
  then show ?thesis by (simp add: write_file_def open_w_def Let_def)
next
  case False
  let ?w1 = "(log_event (OpenWrite p) w)\<lparr>files := (files (log_event (OpenWrite p) w))(p \<mapsto> [])\<rparr>"
  have f: "write_fault ?w1 p = write_fault w p" by (simp add: log_event_def)
  have "write_file p chunks w = write_chunks p 1 chunks ?w1"
    using False by (simp add: write_file_def open_w_def Let_def)
  then have "(\<exists>e. fst (write_file p chunks w) = Inl e) \<longleftrightarrow>
      (\<exists>j. write_fault w p = Some j \<and> 1 \<le> j \<and> j \<le> 1 + length chunks)"
    using write_chunks_fails_iff [of p 1 chunks ?w1] by (simp add: log_event_def)
  also have "\<dots> \<longleftrightarrow> (\<exists>k. write_fault w p = Some k \<and> k \<le> Suc (length chunks))"
    using False by (auto simp: Suc_le_eq)
  finally show ?thesis .
qed

lemma write_file_world:
  assumes "write_file p chunks w = (r, w')"
  shows "trace w' = trace w @ [OpenWrite p] \<and> write_fault w' = write_fault w \<and>
         (\<forall>q. q \<noteq> p \<longrightarrow> files w' q = files w q) \<and>
         (\<forall>e. r = Inl e \<longrightarrow> is_io_error e) \<and>
         (r = Inr () \<longrightarrow> files w' p = Some (concat chunks))"
proof (cases "write_fault w p = Some 0")
  case True
  with assms show ?thesis
    by (auto simp: write_file_def open_w_def Let_def log_event_def is_io_error_def)
next
  case False
  let ?w1 = "(log_event (OpenWrite p) w)\<lparr>files := (files (log_event (OpenWrite p) w))(p \<mapsto> [])\<rparr>"
  from False assms have c: "write_chunks p 1 chunks ?w1 = (r, w')"
    by (simp add: write_file_def open_w_def Let_def)
  have f: "files ?w1 p = Some []" by simp
  have "r = Inr () \<longrightarrow> files w' p = Some (concat chunks)"
    using write_chunks_written [of p 1 chunks ?w1 w' "[]"] c f by auto
  with write_chunks_world [OF c] show ?thesis
    by (auto simp: log_event_def is_io_error_def)
qed

lemma write_reports_first_fails:
  assumes "fst (write_file ''task_overview.txt'' (task_overview_text float_repr ts) w) = Inl e"
  shows "write_reports float_repr ts us w =
     (Inr (), py_print ''Error: Could not write to task_overview.txt''
        (snd (write_file ''task_overview.txt'' (task_overview_text float_repr ts) w)))"
proof -
  obtain r w1 where wf:
    "write_file ''task_overview.txt'' (task_overview_text float_repr ts) w = (r, w1)"
    by (cases "write_file ''task_overview.txt'' (task_overview_text float_repr ts) w")
  with assms have r: "r = Inl e" by simp
  with write_file_world [OF wf] have "is_io_error e" by simp
  then show ?thesis by (simp add: write_reports_def wf r)
qed

lemma write_reports_second_fails:
  assumes "fst (write_file ''task_overview.txt'' (task_overview_text float_repr ts) w) = Inr ()"
    and "fst (write_file ''user_overview.txt'' (user_overview_text float_repr us)
           (snd (write_file ''task_overview.txt'' (task_overview_text float_repr ts) w))) = Inl e"
  shows "write_reports float_repr ts us w =
     (Inr (), py_print ''Error: Could not write to user_overview.txt''
        (snd (write_file ''user_overview.txt'' (user_overview_text float_repr us)
           (snd (write_file ''task_overview.txt'' (task_overview_text float_repr ts) w)))))"
proof -
  obtain r w1 where wf:
    "write_file ''task_overview.txt'' (task_overview_text float_repr ts) w = (r, w1)"
    by (cases "write_file ''task_overview.txt'' (task_overview_text float_repr ts) w")
  with assms(1) have r: "r = Inr ()" by simp
  obtain r2 w2 where wf2:
    "write_file ''user_overview.txt'' (user_overview_text float_repr us) w1 = (r2, w2)"
    by (cases "write_file ''user_overview.txt'' (user_overview_text float_repr us) w1")
  with assms(2) wf have r2: "r2 = Inl e" by simp
  with write_file_world [OF wf2] have "is_io_error e" by simp
  then show ?thesis by (simp add: write_reports_def wf r wf2 r2)
qed

lemma generate_reports_loaded:
  assumes "load_tasks w = (Inr tasks, w1)" and "load_users w1 = (Inr users, w2)"
  shows "\<exists>ts us. calculate_task_stats clock_t tasks = Inr ts \<and>
           calculate_user_stats clock_u tasks users = Inr us \<and>
           generate_reports clock_t clock_u float_repr w = write_reports float_repr ts us w2"
proof -
  have d: "is_dict users" by (rule load_users_dict [OF assms(2)])
  show ?thesis
    by (simp add: generate_reports_def assms calculate_task_stats_Inr
        calculate_user_stats_Inr [OF d])
qed

lemma load_task_lines_fault:
  "write_fault (snd (foldl load_task_line st ls)) = write_fault (snd st)"
  by (induction ls arbitrary: st)
    (simp_all add: load_task_line_def Let_def py_print_def log_event_def)

lemma load_user_lines_fault:
  "write_fault (snd (foldl load_user_line st ls)) = write_fault (snd st)"
  by (induction ls arbitrary: st)
    (simp_all add: load_user_line_def Let_def py_print_def log_event_def)

lemma load_tasks_fault: "write_fault (snd (load_tasks w)) = write_fault w"
proof (cases "files w ''tasks.txt''")
  case None
  let ?w2 = "py_print ''Error: tasks.txt not found. Creating empty file.''
      (log_event (OpenRead ''tasks.txt'') w)"
  obtain r w3 where wf: "write_file ''tasks.txt'' [] ?w2 = (r, w3)"
    by (cases "write_file ''tasks.txt'' [] ?w2")
  have o: "open_r ''tasks.txt'' w = (Inl FileNotFoundError, log_event (OpenRead ''tasks.txt'') w)"
    using None by (simp add: open_r_def Let_def)
  have "snd (load_tasks w) = w3"
    by (cases r) (simp_all add: load_tasks_def o wf Let_def)
  moreover have "write_fault w3 = write_fault ?w2"
    using write_file_world [OF wf] by simp
  ultimately show ?thesis by (simp add: py_print_def log_event_def)
next
  case (Some content)
  have o: "open_r ''tasks.txt'' w =
      (Inr (universal_newlines content), log_event (OpenRead ''tasks.txt'') w)"
    using Some by (simp add: open_r_def Let_def)
  show ?thesis
    by (simp add: load_tasks_def o Let_def load_task_lines_fault log_event_def)
qed

lemma load_users_fault: "write_fault (snd (load_users w)) = write_fault w"
proof (cases "files w ''user.txt''")
  case None
  let ?w2 = "py_print ''Error: user.txt not found. Creating new file with admin.''
      (log_event (OpenRead ''user.txt'') w)"
  let ?c = "[''admin, adm1n'' @ [LF]]"
  obtain r w3 where wf: "write_file ''user.txt'' ?c ?w2 = (r, w3)"
    by (cases "write_file ''user.txt'' ?c ?w2")
  have o: "open_r ''user.txt'' w = (Inl FileNotFoundError, log_event (OpenRead ''user.txt'') w)"
    using None by (simp add: open_r_def Let_def)
  have "snd (load_users w) = w3"
    by (cases r) (simp_all only: load_users_def o wf Let_def prod.case sum.case py_error.case snd_conv)
  moreover have "write_fault w3 = write_fault ?w2"
    using write_file_world [OF wf] by (simp only:)
  ultimately show ?thesis by (simp add: py_print_def log_event_def)
next
  case (Some content)
  have o: "open_r ''user.txt'' w =
      (Inr (universal_newlines content), log_event (OpenRead ''user.txt'') w)"
    using Some by (simp add: open_r_def Let_def)
  show ?thesis
    by (simp add: load_users_def o Let_def load_user_lines_fault log_event_def)
qed

lemma empty_stats:
  "calculate_task_stats example_clock [] =
     Inr \<lparr>ts_total = 0, ts_completed = 0, ts_uncompleted = 0, ts_overdue_uncompleted = 0,
          ts_incomplete_percent = PyInt 0, ts_overdue_percent = PyInt 0\<rparr> \<and>
   calculate_user_stats example_clock [] [(''admin'', ''adm1n'')] =
     Inr \<lparr>ur_total_users = 1, ur_total_tasks = 0,
          ur_user_stats =
            [(''admin'', \<lparr>us_tasks = 0, us_completed = 0, us_overdue = 0,
                us_percent_total = PyInt 0, us_percent_completed = PyInt 0,
                us_percent_incomplete = PyInt 0, us_percent_overdue = PyInt 0\<rparr>)]\<rparr>"
  by code_simp

lemma locked_loads:
  "fst (load_tasks locked_world) = Inr [] \<and>
   fst (load_users (snd (load_tasks locked_world))) = Inr [(''admin'', ''adm1n'')] \<and>
   trace (snd (load_users (snd (load_tasks locked_world)))) =
     [OpenRead ''tasks.txt'', Print ''Error: tasks.txt not found. Creating empty file.'',
      OpenWrite ''tasks.txt'', OpenRead ''user.txt'',
      Print ''Error: user.txt not found. Creating new file with admin.'',
      OpenWrite ''user.txt''] \<and>
   fst (write_file ''task_overview.txt''
     (task_overview_text example_repr
        \<lparr>ts_total = 0, ts_completed = 0, ts_uncompleted = 0, ts_overdue_uncompleted = 0,
         ts_incomplete_percent = PyInt 0, ts_overdue_percent = PyInt 0\<rparr>)
     (snd (load_users (snd (load_tasks locked_world))))) = Inl PermissionError"
  by code_simp

lemma full_disk_loads:
  "fst (load_tasks full_disk_world) = Inr [] \<and>
   fst (load_users (snd (load_tasks full_disk_world))) = Inr [(''admin'', ''adm1n'')] \<and>
   trace (snd (load_users (snd (load_tasks full_disk_world)))) =
     [OpenRead ''tasks.txt'', Print ''Error: tasks.txt not found. Creating empty file.'',
      OpenWrite ''tasks.txt'', OpenRead ''user.txt'',
      Print ''Error: user.txt not found. Creating new file with admin.'',
      OpenWrite ''user.txt''] \<and>
   fst (write_file ''task_overview.txt''
     (task_overview_text example_repr
        \<lparr>ts_total = 0, ts_completed = 0, ts_uncompleted = 0, ts_overdue_uncompleted = 0,
         ts_incomplete_percent = PyInt 0, ts_overdue_percent = PyInt 0\<rparr>)
     (snd (load_users (snd (load_tasks full_disk_world))))) = Inl OSError"
  by code_simp

lemma second_report_loads:
  "fst (load_tasks second_report_world) = Inr [] \<and>
   fst (load_users (snd (load_tasks second_report_world))) = Inr [(''admin'', ''adm1n'')] \<and>
   trace (snd (load_users (snd (load_tasks second_report_world)))) =
     [OpenRead ''tasks.txt'', Print ''Error: tasks.txt not found. Creating empty file.'',
      OpenWrite ''tasks.txt'', OpenRead ''user.txt'',
      Print ''Error: user.txt not found. Creating new file with admin.'',
      OpenWrite ''user.txt''] \<and>
   fst (write_file ''task_overview.txt''
     (task_overview_text example_repr
        \<lparr>ts_total = 0, ts_completed = 0, ts_uncompleted = 0, ts_overdue_uncompleted = 0,
         ts_incomplete_percent = PyInt 0, ts_overdue_percent = PyInt 0\<rparr>)
     (snd (load_users (snd (load_tasks second_report_world))))) = Inr () \<and>
   fst (write_file ''user_overview.txt''
     (user_overview_text example_repr
        \<lparr>ur_total_users = 1, ur_total_tasks = 0,
          ur_user_stats =
            [(''admin'', \<lparr>us_tasks = 0, us_completed = 0, us_overdue = 0,
                us_percent_total = PyInt 0, us_percent_completed = PyInt 0,
                us_percent_incomplete = PyInt 0, us_percent_overdue = PyInt 0\<rparr>)]\<rparr>)
     (snd (write_file ''task_overview.txt''
       (task_overview_text example_repr
          \<lparr>ts_total = 0, ts_completed = 0, ts_uncompleted = 0, ts_overdue_uncompleted = 0,
           ts_incomplete_percent = PyInt 0, ts_overdue_percent = PyInt 0\<rparr>)
       (snd (load_users (snd (load_tasks second_report_world))))))) = Inl OSError"
  by code_simp

text \<open>
  C1, as stated, fails: when \<open>task_overview.txt\<close> cannot be opened for writing, the
  handler prints its message and returns from \<open>generate_reports\<close>; \<open>user_overview.txt\<close>
  is never opened, although it could be written.
\<close>

theorem other_report_not_attempted_counterexample:
  "''task_overview.txt'' \<in> unwritable locked_world \<and>
   ''user_overview.txt'' \<notin> unwritable locked_world \<and>
   fst (generate_reports example_clock example_clock example_repr locked_world) = Inr () \<and>
   Print ''Error: Could not write to task_overview.txt''
     \<in> set (trace (snd (generate_reports example_clock example_clock example_repr locked_world))) \<and>
   OpenWrite ''user_overview.txt''
     \<notin> set (trace (snd (generate_reports example_clock example_clock example_repr locked_world))) \<and>
   files (snd (generate_reports example_clock example_clock example_repr locked_world))
     ''user_overview.txt'' = None"
proof -
  have u: "''task_overview.txt'' \<in> unwritable locked_world \<and>
      ''user_overview.txt'' \<notin> unwritable locked_world"
    by (simp add: unwritable_def locked_world_def)
  have g: "fst (generate_reports example_clock example_clock example_repr locked_world) = Inr () \<and>
   Print ''Error: Could not write to task_overview.txt''
     \<in> set (trace (snd (generate_reports example_clock example_clock example_repr locked_world))) \<and>
   OpenWrite ''user_overview.txt''
     \<notin> set (trace (snd (generate_reports example_clock example_clock example_repr locked_world))) \<and>
   files (snd (generate_reports example_clock example_clock example_repr locked_world))
     ''user_overview.txt'' = None"
    by code_simp
  from u g show ?thesis by simp
qed

text \<open>
  C1, amended. Writing a file fails exactly when the file system has a fault at its
  \<open>open\<close>, at one of its \<open>write\<close> calls or at its closing. Once the tasks and the
  users are loaded, \<open>generate_reports\<close> returns normally whatever happens to the two
  writes. If writing \<open>task_overview.txt\<close> fails with an I/O error, at any of these
  points, it prints the failure message for that file and returns at once:
  \<open>user_overview.txt\<close> is not opened and no other file changes. If
  \<open>task_overview.txt\<close> is written and writing \<open>user_overview.txt\<close> fails with an I/O
  error, it prints the failure message for that file and returns; \<open>task_overview.txt\<close>
  stays written and no success message is printed.
\<close>

theorem generate_reports_write_failure:
  "load_tasks w = (Inr tasks, w1) \<Longrightarrow> load_users w1 = (Inr users, w2) \<Longrightarrow>
   write_fault w2 = write_fault w \<and>
   (\<forall>p chunks w'. (\<exists>e. fst (write_file p chunks w') = Inl e) \<longleftrightarrow>
      (\<exists>k. write_fault w' p = Some k \<and> k \<le> Suc (length chunks))) \<and>
   (\<exists>ts us.
      calculate_task_stats clock_t tasks = Inr ts \<and>
      calculate_user_stats clock_u tasks users = Inr us \<and>
      (\<forall>e. fst (write_file ''task_overview.txt'' (task_overview_text float_repr ts) w2) = Inl e
         \<longrightarrow>
         fst (generate_reports clock_t clock_u float_repr w) = Inr () \<and>
         trace (snd (generate_reports clock_t clock_u float_repr w)) =
           trace w2 @ [OpenWrite ''task_overview.txt'',
                       Print ''Error: Could not write to task_overview.txt''] \<and>
         (\<forall>p. p \<noteq> ''task_overview.txt'' \<longrightarrow>
            files (snd (generate_reports clock_t clock_u float_repr w)) p = files w2 p)) \<and>
      (\<forall>e. fst (write_file ''task_overview.txt'' (task_overview_text float_repr ts) w2) = Inr () \<and>
           fst (write_file ''user_overview.txt'' (user_overview_text float_repr us)
             (snd (write_file ''task_overview.txt'' (task_overview_text float_repr ts) w2)))
             = Inl e
         \<longrightarrow>
         fst (generate_reports clock_t clock_u float_repr w) = Inr () \<and>
         trace (snd (generate_reports clock_t clock_u float_repr w)) =
           trace w2 @ [OpenWrite ''task_overview.txt'', OpenWrite ''user_overview.txt'',
                       Print ''Error: Could not write to user_overview.txt''] \<and>
         files (snd (generate_reports clock_t clock_u float_repr w)) ''task_overview.txt'' =
           Some (concat (task_overview_text float_repr ts)) \<and>
         (\<forall>p. p \<noteq> ''task_overview.txt'' \<and> p \<noteq> ''user_overview.txt'' \<longrightarrow>
            files (snd (generate_reports clock_t clock_u float_repr w)) p = files w2 p)))"
proof -
  assume lt: "load_tasks w = (Inr tasks, w1)" and lu: "load_users w1 = (Inr users, w2)"
  have "write_fault w1 = write_fault w" using load_tasks_fault [of w] lt by simp
  moreover have "write_fault w2 = write_fault w1" using load_users_fault [of w1] lu by simp
  ultimately have u: "write_fault w2 = write_fault w" by simp
  from generate_reports_loaded [OF lt lu, of clock_t clock_u float_repr]
  obtain ts us where ts: "calculate_task_stats clock_t tasks = Inr ts"
    and us: "calculate_user_stats clock_u tasks users = Inr us"
    and g: "generate_reports clock_t clock_u float_repr w = write_reports float_repr ts us w2"
    by blast
  let ?t = "write_file ''task_overview.txt'' (task_overview_text float_repr ts) w2"
  let ?u = "write_file ''user_overview.txt'' (user_overview_text float_repr us) (snd ?t)"
  have wt: "trace (snd ?t) = trace w2 @ [OpenWrite ''task_overview.txt''] \<and>
         (\<forall>q. q \<noteq> ''task_overview.txt'' \<longrightarrow> files (snd ?t) q = files w2 q) \<and>
         (fst ?t = Inr () \<longrightarrow> files (snd ?t) ''task_overview.txt'' =
            Some (concat (task_overview_text float_repr ts)))"
    using write_file_world [of "''task_overview.txt''" "task_overview_text float_repr ts" w2
        "fst ?t" "snd ?t"] by simp
  have wu: "trace (snd ?u) = trace (snd ?t) @ [OpenWrite ''user_overview.txt''] \<and>
         (\<forall>q. q \<noteq> ''user_overview.txt'' \<longrightarrow> files (snd ?u) q = files (snd ?t) q)"
    using write_file_world [of "''user_overview.txt''" "user_overview_text float_repr us" "snd ?t"
        "fst ?u" "snd ?u"] by simp
  have a: "fst (generate_reports clock_t clock_u float_repr w) = Inr () \<and>
         trace (snd (generate_reports clock_t clock_u float_repr w)) =
           trace w2 @ [OpenWrite ''task_overview.txt'',
                       Print ''Error: Could not write to task_overview.txt''] \<and>
         (\<forall>p. p \<noteq> ''task_overview.txt'' \<longrightarrow>
            files (snd (generate_reports clock_t clock_u float_repr w)) p = files w2 p)"
    if "fst ?t = Inl e" for e
    unfolding g write_reports_first_fails [OF that]
    using wt by (simp add: py_print_def log_event_def)
  have b: "fst (generate_reports clock_t clock_u float_repr w) = Inr () \<and>
         trace (snd (generate_reports clock_t clock_u float_repr w)) =
           trace w2 @ [OpenWrite ''task_overview.txt'', OpenWrite ''user_overview.txt'',
                       Print ''Error: Could not write to user_overview.txt''] \<and>
         files (snd (generate_reports clock_t clock_u float_repr w)) ''task_overview.txt'' =
           Some (concat (task_overview_text float_repr ts)) \<and>
         (\<forall>p. p \<noteq> ''task_overview.txt'' \<and> p \<noteq> ''user_overview.txt'' \<longrightarrow>
            files (snd (generate_reports clock_t clock_u float_repr w)) p = files w2 p)"
    if "fst ?t = Inr () \<and> fst ?u = Inl e" for e
  proof -
    from that have 1: "fst ?t = Inr ()" and 2: "fst ?u = Inl e" by simp_all
    show ?thesis
      unfolding g write_reports_second_fails [OF 1 2]
      using wt wu 1 by (simp add: py_print_def log_event_def)
  qed
  from u ts us a b write_file_fails_iff show ?thesis by blast
qed

theorem generate_reports_write_failure_witness:
  "fst (generate_reports example_clock example_clock example_repr locked_world) = Inr () \<and>
   trace (snd (generate_reports example_clock example_clock example_repr locked_world)) =
     [OpenRead ''tasks.txt'', Print ''Error: tasks.txt not found. Creating empty file.'',
      OpenWrite ''tasks.txt'', OpenRead ''user.txt'',
      Print ''Error: user.txt not found. Creating new file with admin.'',
      OpenWrite ''user.txt'', OpenWrite ''task_overview.txt'',
      Print ''Error: Could not write to task_overview.txt''] \<and>
   write_fault full_disk_world ''task_overview.txt'' = Some 3 \<and>
   fst (generate_reports example_clock example_clock example_repr full_disk_world) = Inr () \<and>
   trace (snd (generate_reports example_clock example_clock example_repr full_disk_world)) =
     [OpenRead ''tasks.txt'', Print ''Error: tasks.txt not found. Creating empty file.'',
      OpenWrite ''tasks.txt'', OpenRead ''user.txt'',
      Print ''Error: user.txt not found. Creating new file with admin.'',
      OpenWrite ''user.txt'', OpenWrite ''task_overview.txt'',
      Print ''Error: Could not write to task_overview.txt''] \<and>
   write_fault second_report_world ''user_overview.txt'' = Some 2 \<and>
   fst (generate_reports example_clock example_clock example_repr second_report_world) = Inr () \<and>
   trace (snd (generate_reports example_clock example_clock example_repr second_report_world)) =
     [OpenRead ''tasks.txt'', Print ''Error: tasks.txt not found. Creating empty file.'',
      OpenWrite ''tasks.txt'', OpenRead ''user.txt'',
      Print ''Error: user.txt not found. Creating new file with admin.'',
      OpenWrite ''user.txt'', OpenWrite ''task_overview.txt'', OpenWrite ''user_overview.txt'',
      Print ''Error: Could not write to user_overview.txt''] \<and>
   files (snd (generate_reports example_clock example_clock example_repr second_report_world))
     ''task_overview.txt'' =
     Some (concat (task_overview_text example_repr
        \<lparr>ts_total = 0, ts_completed = 0, ts_uncompleted = 0, ts_overdue_uncompleted = 0,
         ts_incomplete_percent = PyInt 0, ts_overdue_percent = PyInt 0\<rparr>))"
proof -
  let ?ts = "\<lparr>ts_total = 0, ts_completed = 0, ts_uncompleted = 0, ts_overdue_uncompleted = 0,
         ts_incomplete_percent = PyInt 0, ts_overdue_percent = PyInt 0\<rparr>"
  let ?us = "\<lparr>ur_total_users = 1, ur_total_tasks = 0,
          ur_user_stats =
            [(''admin'', \<lparr>us_tasks = 0, us_completed = 0, us_overdue = 0,
                us_percent_total = PyInt 0, us_percent_completed = PyInt 0,
                us_percent_incomplete = PyInt 0, us_percent_overdue = PyInt 0\<rparr>)]\<rparr>"
  have first: "fst (generate_reports example_clock example_clock example_repr W) = Inr () \<and>
      trace (snd (generate_reports example_clock example_clock example_repr W)) =
        trace (snd (load_users (snd (load_tasks W)))) @
          [OpenWrite ''task_overview.txt'', Print ''Error: Could not write to task_overview.txt'']"
    if lt: "fst (load_tasks W) = Inr []"
      and lu: "fst (load_users (snd (load_tasks W))) = Inr [(''admin'', ''adm1n'')]"
      and f: "fst (write_file ''task_overview.txt'' (task_overview_text example_repr ?ts)
                (snd (load_users (snd (load_tasks W))))) = Inl e" for W e
  proof -
    have 1: "load_tasks W = (Inr [], snd (load_tasks W))" using lt by (simp add: prod_eq_iff)
    have 2: "load_users (snd (load_tasks W)) =
        (Inr [(''admin'', ''adm1n'')], snd (load_users (snd (load_tasks W))))"
      using lu by (simp add: prod_eq_iff)
    from generate_reports_write_failure [OF 1 2, of example_clock example_clock example_repr]
      empty_stats f
    show ?thesis by auto
  qed
  have second: "fst (generate_reports example_clock example_clock example_repr W) = Inr () \<and>
      trace (snd (generate_reports example_clock example_clock example_repr W)) =
        trace (snd (load_users (snd (load_tasks W)))) @
          [OpenWrite ''task_overview.txt'', OpenWrite ''user_overview.txt'',
           Print ''Error: Could not write to user_overview.txt''] \<and>
      files (snd (generate_reports example_clock example_clock example_repr W))
        ''task_overview.txt'' = Some (concat (task_overview_text example_repr ?ts))"
    if lt: "fst (load_tasks W) = Inr []"
      and lu: "fst (load_users (snd (load_tasks W))) = Inr [(''admin'', ''adm1n'')]"
      and f: "fst (write_file ''task_overview.txt'' (task_overview_text example_repr ?ts)
                (snd (load_users (snd (load_tasks W))))) = Inr ()"
      and g: "fst (write_file ''user_overview.txt'' (user_overview_text example_repr ?us)
                (snd (write_file ''task_overview.txt'' (task_overview_text example_repr ?ts)
                  (snd (load_users (snd (load_tasks W))))))) = Inl e" for W e
  proof -
    have 1: "load_tasks W = (Inr [], snd (load_tasks W))" using lt by (simp add: prod_eq_iff)
    have 2: "load_users (snd (load_tasks W)) =
        (Inr [(''admin'', ''adm1n'')], snd (load_users (snd (load_tasks W))))"
      using lu by (simp add: prod_eq_iff)
    from generate_reports_write_failure [OF 1 2, of example_clock example_clock example_repr]
      empty_stats f g
    show ?thesis by auto
  qed
  have a: "write_fault full_disk_world ''task_overview.txt'' = Some 3"
    by (simp add: full_disk_world_def)
  have b: "write_fault second_report_world ''user_overview.txt'' = Some 2"
    by (simp add: second_report_world_def)
  from first [of locked_world PermissionError] locked_loads
    first [of full_disk_world OSError] full_disk_loads
    second [of second_report_world OSError] second_report_loads a b
  show ?thesis by simp
qed

end
